theory Spec2Isabelle
  imports Main "HOL-Library.Sublist" "HOL-Library.Multiset"
begin

section \<open>The operating system and the libraries the gateway calls\<close>

text \<open>
  Go strings are byte sequences: \<open>string\<close>. A \<open>time.Time\<close> is a count of nanoseconds
  (unbounded here: Go's range is far wider than any duration), a \<open>time.Duration\<close> is a
  signed 64-bit count of nanoseconds.
\<close>

type_synonym Time = int

type_synonym Duration = int

definition minDuration :: Duration where
  "minDuration = - (2 ^ 63)"

definition maxDuration :: Duration where
  "maxDuration = 2 ^ 63 - 1"

text \<open>
  \<open>t.Sub(u)\<close> of package time: the difference, saturated at the least and the greatest
  Duration. \<open>time.Until(t)\<close> is \<open>t.Sub(time.Now())\<close>; the clock reading is the argument
  \<open>now\<close>.
\<close>

definition time_Sub :: "Time \<Rightarrow> Time \<Rightarrow> Duration" where
  "time_Sub t u =
     (if t - u < minDuration then minDuration
      else if maxDuration < t - u then maxDuration
      else t - u)"

definition time_Until :: "Time \<Rightarrow> Time \<Rightarrow> Duration" where
  "time_Until now t = time_Sub t now"

subsection \<open>Files\<close>

text \<open>
  What the certificate directory holds at a path: nothing (\<open>os.Stat\<close> and
  \<open>os.ReadFile\<close> fail with an error for which \<open>os.IsNotExist\<close> holds), something that
  cannot even be examined (both fail with another error), a file that exists but cannot
  be read, or a file with its content. \<open>wfail\<close> marks the paths at which
  \<open>os.WriteFile\<close> fails; a failed write is taken to leave the file as it was.
\<close>

datatype fentry = NoEnt | StatErr | Unreadable | Data string

datatype os_error = ErrNotExist | ErrOther

record filesys =
  entry :: "string \<Rightarrow> fentry"
  wfail :: "string \<Rightarrow> bool"

definition os_Stat :: "filesys \<Rightarrow> string \<Rightarrow> os_error option" where
  "os_Stat f p =
     (case entry f p of NoEnt \<Rightarrow> Some ErrNotExist | StatErr \<Rightarrow> Some ErrOther
      | Unreadable \<Rightarrow> None | Data d \<Rightarrow> None)"

definition os_ReadFile :: "filesys \<Rightarrow> string \<Rightarrow> os_error + string" where
  "os_ReadFile f p =
     (case entry f p of NoEnt \<Rightarrow> Inl ErrNotExist | StatErr \<Rightarrow> Inl ErrOther
      | Unreadable \<Rightarrow> Inl ErrOther | Data d \<Rightarrow> Inr d)"

definition os_WriteFile :: "filesys \<Rightarrow> string \<Rightarrow> string \<Rightarrow> os_error option \<times> filesys" where
  "os_WriteFile f p d =
     (if wfail f p then (Some ErrOther, f)
      else (None, f\<lparr>entry := (entry f)(p := Data d)\<rparr>))"

text \<open>\<open>filepath.Join(dir, name)\<close> for a name without separators or dot segments.\<close>

definition filepath_Join :: "string \<Rightarrow> string \<Rightarrow> string" where
  "filepath_Join dir name = dir @ ''/'' @ name"

subsection \<open>Certificates and the ACME client\<close>

text \<open>
  A \<open>tls.Certificate\<close>: the chain of DER certificates and the private key.
  \<open>tls.X509KeyPair\<close> and \<open>x509.ParseCertificate\<close> are library functions, taken as
  parameters; of a parsed certificate only \<open>NotAfter\<close> is read.
\<close>

record tls_Certificate =
  Certificate :: "string list"
  PrivateKey :: string

record crypto =
  X509KeyPair :: "string \<Rightarrow> string \<Rightarrow> tls_Certificate option"
  ParseCertificate :: "string \<Rightarrow> Time option"

text \<open>
  \<open>certificate.Resource\<close> as returned by lego's \<open>Certificate.Obtain\<close>: the PEM bundle
  and the PEM key. The failures of the ACME exchange are the ones the capability
  contract names.
\<close>

record acme_Resource =
  res_Certificate :: string
  res_PrivateKey :: string

datatype acme_error = RateLimited | ChallengeFailed | NetworkError | AccountInvalid

type_synonym lego_Client = "string \<Rightarrow> acme_error + acme_Resource"

section \<open>internal/certs/manager.go\<close>

definition certificatesPath :: string where
  "certificatesPath = ''/certs''"

text \<open>
  What the manager does to the world outside its own memory, in the order it does it:
  file-system calls, entries into \<open>obtainOrRenewCert\<close>, and requests sent to the ACME
  service.
\<close>

datatype event =
  EvStat string
  | EvRead string
  | EvWrite string
  | EvObtainCalled string
  | EvAcmeRequest string

text \<open>
  The \<open>Manager\<close> struct (\<open>certs\<close>, \<open>legoClient\<close>, \<open>renewBefore\<close>; the lock has no
  sequential content and \<open>legoUser\<close> is not read after construction) together with the
  certificate directory and the record of effects.
\<close>

record Manager =
  certs :: "string \<Rightarrow> tls_Certificate option"
  legoClient :: "lego_Client option"
  renewBefore :: Duration
  fs :: filesys
  trace :: "event list"

definition emit :: "event \<Rightarrow> Manager \<Rightarrow> Manager" where
  "emit e m = m\<lparr>trace := trace m @ [e]\<rparr>"

datatype load_error =
  ReadFailed os_error
  | KeyPairFailed
  | NoCertificateFound
  | ParseFailed

text \<open>\<open>loadCertFromFile\<close>: loads the pair, caches it, returns the expiry time.\<close>

definition loadCertFromFile :: "crypto \<Rightarrow> string \<Rightarrow> Manager \<Rightarrow> (load_error + Time) \<times> Manager" where
  "loadCertFromFile cr fqdn m =
     (let certFile = filepath_Join certificatesPath (fqdn @ ''.crt'');
          keyFile = filepath_Join certificatesPath (fqdn @ ''.key'');
          m1 = emit (EvRead certFile) m
      in case os_ReadFile (fs m1) certFile of
           Inl err \<Rightarrow> (Inl (ReadFailed err), m1)
         | Inr certData \<Rightarrow>
             (let m2 = emit (EvRead keyFile) m1
              in case os_ReadFile (fs m2) keyFile of
                   Inl err \<Rightarrow> (Inl (ReadFailed err), m2)
                 | Inr keyData \<Rightarrow>
                     (case X509KeyPair cr certData keyData of
                        None \<Rightarrow> (Inl KeyPairFailed, m2)
                      | Some tlsCert \<Rightarrow>
                          (case Certificate tlsCert of
                             [] \<Rightarrow> (Inl NoCertificateFound, m2)
                           | der # rest \<Rightarrow>
                               (case ParseCertificate cr der of
                                  None \<Rightarrow> (Inl ParseFailed, m2)
                                | Some notAfter \<Rightarrow>
                                    (Inr notAfter,
                                     m2\<lparr>certs := (certs m2)(fqdn \<mapsto> tlsCert)\<rparr>))))))"

datatype obtain_error =
  ClientNotInitialized
  | ObtainFailed acme_error
  | SaveCertificateFailed os_error
  | SavePrivateKeyFailed os_error

text \<open>
  \<open>obtainOrRenewCert\<close>, from the response of the ACME service on: write the
  certificate file, write the key file, load and cache; an error of the final load is
  logged and \<open>nil\<close> is returned.
\<close>

definition storeObtained :: "crypto \<Rightarrow> string \<Rightarrow> acme_Resource \<Rightarrow> Manager \<Rightarrow> obtain_error option \<times> Manager" where
  "storeObtained cr fqdn certRes m =
     (let certFile = filepath_Join certificatesPath (fqdn @ ''.crt'');
          keyFile = filepath_Join certificatesPath (fqdn @ ''.key'');
          m1 = emit (EvWrite certFile) m
      in case os_WriteFile (fs m1) certFile (res_Certificate certRes) of
           (Some err, f1) \<Rightarrow> (Some (SaveCertificateFailed err), m1\<lparr>fs := f1\<rparr>)
         | (None, f1) \<Rightarrow>
             (let m2 = emit (EvWrite keyFile) (m1\<lparr>fs := f1\<rparr>)
              in case os_WriteFile (fs m2) keyFile (res_PrivateKey certRes) of
                   (Some err, f2) \<Rightarrow> (Some (SavePrivateKeyFailed err), m2\<lparr>fs := f2\<rparr>)
                 | (None, f2) \<Rightarrow> (None, snd (loadCertFromFile cr fqdn (m2\<lparr>fs := f2\<rparr>)))))"

definition obtainOrRenewCert :: "crypto \<Rightarrow> string \<Rightarrow> Manager \<Rightarrow> obtain_error option \<times> Manager" where
  "obtainOrRenewCert cr fqdn m =
     (let m0 = emit (EvObtainCalled fqdn) m
      in case legoClient m0 of
           None \<Rightarrow> (Some ClientNotInitialized, m0)
         | Some client \<Rightarrow>
             (let m1 = emit (EvAcmeRequest fqdn) m0
              in case client fqdn of
                   Inl err \<Rightarrow> (Some (ObtainFailed err), m1)
                 | Inr certRes \<Rightarrow> storeObtained cr fqdn certRes m1))"

text \<open>
  \<open>CheckAndManageCert\<close>: the value of \<open>needsObtain\<close> after the if-chain (\<open>None\<close> for
  the early return on a Stat error), then the whole function.
\<close>

definition needsObtain :: "crypto \<Rightarrow> Time \<Rightarrow> string \<Rightarrow> Manager \<Rightarrow> bool option \<times> Manager" where
  "needsObtain cr now fqdn m =
     (let certFile = filepath_Join certificatesPath (fqdn @ ''.crt'');
          m1 = emit (EvStat certFile) m
      in case os_Stat (fs m1) certFile of
           Some ErrNotExist \<Rightarrow> (Some True, m1)
         | Some ErrOther \<Rightarrow> (None, m1)
         | None \<Rightarrow>
             (case loadCertFromFile cr fqdn m1 of
                (Inl err, m2) \<Rightarrow> (Some False, m2)
              | (Inr expiry, m2) \<Rightarrow>
                  (Some (time_Until now expiry < renewBefore m2), m2)))"

definition CheckAndManageCert :: "crypto \<Rightarrow> Time \<Rightarrow> string \<Rightarrow> Manager \<Rightarrow> Manager" where
  "CheckAndManageCert cr now fqdn m =
     (case needsObtain cr now fqdn m of
        (None, m1) \<Rightarrow> m1
      | (Some False, m1) \<Rightarrow> m1
      | (Some True, m1) \<Rightarrow> snd (obtainOrRenewCert cr fqdn m1))"

datatype sni_error =
  MissingServerName
  | InconsistentAfterLoading string
  | NotAvailable string

text \<open>\<open>GetCertificateForSNI\<close>; \<open>hello.ServerName\<close> is the argument.\<close>

definition GetCertificateForSNI :: "crypto \<Rightarrow> string \<Rightarrow> Manager \<Rightarrow> (sni_error + tls_Certificate) \<times> Manager" where
  "GetCertificateForSNI cr serverName m =
     (if serverName = [] then (Inl MissingServerName, m)
      else
        (let fqdn = serverName
         in case certs m fqdn of
              Some cert \<Rightarrow> (Inr cert, m)
            | None \<Rightarrow>
                (case loadCertFromFile cr fqdn m of
                   (Inr notAfter, m1) \<Rightarrow>
                     (case certs m1 fqdn of
                        None \<Rightarrow> (Inl (InconsistentAfterLoading fqdn), m1)
                      | Some cert \<Rightarrow> (Inr cert, m1))
                 | (Inl err, m1) \<Rightarrow> (Inl (NotAvailable fqdn), m1))))"

text \<open>
  The record the certificate directory holds for a name, as \<open>loadCertFromFile\<close> accepts
  it: both files readable, the pair accepted by \<open>tls.X509KeyPair\<close>, a first certificate
  present and parsable; with it, the expiry time of that certificate. \<open>None\<close> when any
  of these fails.
\<close>

definition persistedRecord :: "crypto \<Rightarrow> filesys \<Rightarrow> string \<Rightarrow> (tls_Certificate \<times> Time) option" where
  "persistedRecord cr f fqdn =
     (case os_ReadFile f (filepath_Join certificatesPath (fqdn @ ''.crt'')) of
        Inl err \<Rightarrow> None
      | Inr certData \<Rightarrow>
          (case os_ReadFile f (filepath_Join certificatesPath (fqdn @ ''.key'')) of
             Inl err \<Rightarrow> None
           | Inr keyData \<Rightarrow>
               (case X509KeyPair cr certData keyData of
                  None \<Rightarrow> None
                | Some tlsCert \<Rightarrow>
                    (case Certificate tlsCert of
                       [] \<Rightarrow> None
                     | der # rest \<Rightarrow>
                         (case ParseCertificate cr der of
                            None \<Rightarrow> None
                          | Some notAfter \<Rightarrow> Some (tlsCert, notAfter))))))"

text \<open>The file reads one call of \<open>loadCertFromFile\<close> makes.\<close>

definition loadReads :: "filesys \<Rightarrow> string \<Rightarrow> event list" where
  "loadReads f fqdn =
     EvRead (filepath_Join certificatesPath (fqdn @ ''.crt'')) #
     (case os_ReadFile f (filepath_Join certificatesPath (fqdn @ ''.crt'')) of
        Inl err \<Rightarrow> []
      | Inr certData \<Rightarrow> [EvRead (filepath_Join certificatesPath (fqdn @ ''.key''))])"

text \<open>
  Readings of the record of effects: the names for which \<open>obtainOrRenewCert\<close> was
  entered, the names for which a request went to the ACME service, the paths written.
\<close>

definition obtainCalls :: "event list \<Rightarrow> string list" where
  "obtainCalls tr = concat (map (\<lambda>e. case e of EvObtainCalled f \<Rightarrow> [f] | _ \<Rightarrow> []) tr)"

definition acmeRequests :: "event list \<Rightarrow> string list" where
  "acmeRequests tr = concat (map (\<lambda>e. case e of EvAcmeRequest f \<Rightarrow> [f] | _ \<Rightarrow> []) tr)"

definition fileWrites :: "event list \<Rightarrow> string list" where
  "fileWrites tr = concat (map (\<lambda>e. case e of EvWrite p \<Rightarrow> [p] | _ \<Rightarrow> []) tr)"

section \<open>Concrete scenarios\<close>

text \<open>
  A certificate directory with a loadable pair for \<open>app.example.com\<close> (cert-A, expiring
  on day 110), a certificate file without its key for \<open>broken.example.com\<close> and nothing
  else; a library that accepts the key \<open>key-of-c\<close> for a certificate \<open>c\<close> and parses
  cert-A and cert-B; an ACME service that issues cert-B, and one that refuses.
\<close>

definition day :: Duration where
  "day = 86400000000000"

definition exampleCrypto :: crypto where
  "exampleCrypto =
     \<lparr>X509KeyPair = (\<lambda>c k. if k = ''key-of-'' @ c
                        then Some \<lparr>Certificate = [c], PrivateKey = k\<rparr> else None),
      ParseCertificate = (\<lambda>der. if der = ''cert-A'' then Some (110 * day)
                        else if der = ''cert-B'' then Some (190 * day) else None)\<rparr>"

definition exampleFiles :: filesys where
  "exampleFiles =
     \<lparr>entry = (\<lambda>p. if p = ''/certs/app.example.com.crt'' then Data ''cert-A''
                 else if p = ''/certs/app.example.com.key'' then Data ''key-of-cert-A''
                 else if p = ''/certs/broken.example.com.crt'' then Data ''cert-A''
                 else NoEnt),
      wfail = (\<lambda>p. False)\<rparr>"

definition exampleAcme :: lego_Client where
  "exampleAcme = (\<lambda>domain. Inr \<lparr>res_Certificate = ''cert-B'', res_PrivateKey = ''key-of-cert-B''\<rparr>)"

definition rateLimitedAcme :: lego_Client where
  "rateLimitedAcme = (\<lambda>domain. Inl RateLimited)"

definition exampleManager :: Manager where
  "exampleManager =
     \<lparr>certs = Map.empty, legoClient = Some exampleAcme, renewBefore = 30 * day,
      fs = exampleFiles, trace = []\<rparr>"

definition certA :: tls_Certificate where
  "certA = \<lparr>Certificate = [''cert-A''], PrivateKey = ''key-of-cert-A''\<rparr>"

definition certB :: tls_Certificate where
  "certB = \<lparr>Certificate = [''cert-B''], PrivateKey = ''key-of-cert-B''\<rparr>"

text \<open>The manager serving cert-A from its cache, on a volume where the key file cannot be written.\<close>

definition keyReadOnlyManager :: Manager where
  "keyReadOnlyManager =
     exampleManager
       \<lparr>certs := [''app.example.com'' \<mapsto> certA],
        fs := exampleFiles\<lparr>wfail := (\<lambda>p. p = ''/certs/app.example.com.key'')\<rparr>\<rparr>"

text \<open>
  The manager after the renewal that failed on the read-only key file: cert-A still
  cached, cert-B on disk beside the key of cert-A.
\<close>

definition staleManager :: Manager where
  "staleManager = snd (obtainOrRenewCert exampleCrypto ''app.example.com'' keyReadOnlyManager)"

section \<open>internal/podman/client.go\<close>

text \<open>
  \<open>ContainerInfo\<close> as \<open>ListContainers\<close> produces it, and what the router reads of an
  \<open>InspectOutput\<close>: the attached networks, each with its address. \<open>Networks\<close> is a Go
  map; the list gives its entries in the order in which one \<open>range\<close> loop visits them,
  an order Go leaves unspecified and varies from run to run. A nil map is the empty list.
\<close>

record ContainerInfo =
  ID :: string
  Name :: string
  ExposedPort :: string
  FQDN :: string

record InspectOutput =
  inspect_Id :: string
  Networks :: "(string \<times> string) list"

text \<open>
  The answers of the remote host to the two calls of the client: the listing (\<open>None\<close>
  when \<open>ListContainers\<close> returns an error) and the inspection of a container by its
  id (\<open>None\<close> when \<open>InspectContainer\<close> returns an error).
\<close>

record podman_Client =
  ListContainers :: "ContainerInfo list option"
  InspectContainer :: "string \<Rightarrow> InspectOutput option"

section \<open>internal/proxy/router.go\<close>

record Route =
  TargetIP :: string
  TargetPort :: int

type_synonym RouteTable = "string \<Rightarrow> Route option"

text \<open>\<open>GetRoute\<close>: the route and whether it exists (the zero Route when it does not).\<close>

definition GetRoute :: "RouteTable \<Rightarrow> string \<Rightarrow> Route \<times> bool" where
  "GetRoute routes fqdn =
     (case routes fqdn of
        Some route \<Rightarrow> (route, True)
      | None \<Rightarrow> (\<lparr>TargetIP = [], TargetPort = 0\<rparr>, False))"

text \<open>
  \<open>strconv.Atoi\<close> on a 64-bit platform: an optional sign, then at least one decimal
  digit and nothing else, the value within the range of \<open>int\<close>.
\<close>

fun digitsValue :: "string \<Rightarrow> nat \<Rightarrow> nat option" where
  "digitsValue [] acc = Some acc"
| "digitsValue (c # cs) acc =
     (if (48::nat) \<le> of_char c \<and> of_char c \<le> (57::nat)
      then digitsValue cs (acc * 10 + (of_char c - 48)) else None)"

definition strconv_Atoi :: "string \<Rightarrow> int option" where
  "strconv_Atoi s =
     (let neg = (s \<noteq> [] \<and> hd s = CHR ''-'');
          ds = (if s \<noteq> [] \<and> (hd s = CHR ''-'' \<or> hd s = CHR ''+'') then tl s else s)
      in if ds = [] then None
         else (case digitsValue ds 0 of
                 None \<Rightarrow> None
               | Some n \<Rightarrow>
                   (let v = (if neg then - int n else int n)
                    in if v < - (2 ^ 63) \<or> 2 ^ 63 - 1 < v then None else Some v)))"

text \<open>
  The loop of \<open>updateRoutes\<close> over the networks of an inspected container: the first
  non-empty address met, the empty string when there is none.
\<close>

fun ipAddressOf :: "(string \<times> string) list \<Rightarrow> string" where
  "ipAddressOf [] = []"
| "ipAddressOf ((name, ip) # rest) = (if ip \<noteq> [] then ip else ipAddressOf rest)"

text \<open>
  What the goroutines of one tick share: the candidate table \<open>newRoutes\<close>, the flag
  \<open>routesChanged\<close>, and the names for which \<open>CheckAndManageCert\<close> was called.
\<close>

record tick =
  newRoutes :: RouteTable
  routesChanged :: bool
  certChecks :: "string list"

text \<open>The body of the goroutine started for one container.\<close>

definition inspectAndRoute :: "podman_Client \<Rightarrow> RouteTable \<Rightarrow> tick \<Rightarrow> ContainerInfo \<Rightarrow> tick" where
  "inspectAndRoute pc oldRoutes t c =
     (case InspectContainer pc (ID c) of
        None \<Rightarrow> t
      | Some inspectData \<Rightarrow>
          (let ipAddress = ipAddressOf (Networks inspectData)
           in if ipAddress = [] then t
              else (case strconv_Atoi (ExposedPort c) of
                      None \<Rightarrow> t
                    | Some exposedPort \<Rightarrow>
                        (let newRoute = \<lparr>TargetIP = ipAddress, TargetPort = exposedPort\<rparr>
                         in if oldRoutes (FQDN c) \<noteq> Some newRoute
                            then t\<lparr>newRoutes := (newRoutes t)(FQDN c \<mapsto> newRoute),
                                   routesChanged := True,
                                   certChecks := certChecks t @ [FQDN c]\<rparr>
                            else t\<lparr>newRoutes := (newRoutes t)(FQDN c \<mapsto> newRoute)\<rparr>))))"

text \<open>
  The goroutines update the shared state under \<open>inspectMutex\<close>, one at a time, in an
  order the scheduler chooses: \<open>sched\<close> lists the positions of the containers in the
  order in which their goroutines take the lock.
\<close>

definition scheduled :: "nat list \<Rightarrow> 'a list \<Rightarrow> 'a list" where
  "scheduled sched xs = map (\<lambda>i. xs ! i) (filter (\<lambda>i. i < length xs) sched)"

definition afterWait :: "podman_Client \<Rightarrow> nat list \<Rightarrow> RouteTable \<Rightarrow> ContainerInfo list \<Rightarrow> tick" where
  "afterWait pc sched oldRoutes containers =
     foldl (inspectAndRoute pc oldRoutes)
       \<lparr>newRoutes = Map.empty, routesChanged = False, certChecks = []\<rparr>
       (scheduled sched containers)"

text \<open>
  \<open>updateRoutes\<close>: the published table after the tick, and the names handed to the
  certificate manager during it.
\<close>

definition updateRoutes :: "podman_Client \<Rightarrow> nat list \<Rightarrow> RouteTable \<Rightarrow> RouteTable \<times> string list" where
  "updateRoutes pc sched routes =
     (let oldRoutes = routes
      in case ListContainers pc of
           None \<Rightarrow> (routes, [])
         | Some containers \<Rightarrow>
             (let t = afterWait pc sched oldRoutes containers
              in if routesChanged t then (newRoutes t, certChecks t)
                 else (routes, certChecks t)))"

section \<open>Concrete routing scenarios\<close>

definition appRoute :: Route where
  "appRoute = \<lparr>TargetIP = ''10.0.0.5'', TargetPort = 8080\<rparr>"

definition appContainer :: ContainerInfo where
  "appContainer = \<lparr>ID = ''c1'', Name = ''app'', ExposedPort = ''8080'', FQDN = ''app.example.com''\<rparr>"

text \<open>A host running the one container, a host running none, and a host that cannot be reached.\<close>

definition oneContainerHost :: podman_Client where
  "oneContainerHost =
     \<lparr>ListContainers = Some [appContainer],
      InspectContainer = (\<lambda>id. if id = ''c1''
         then Some \<lparr>inspect_Id = ''c1'', Networks = [(''podman'', ''10.0.0.5'')]\<rparr> else None)\<rparr>"

definition emptyHost :: podman_Client where
  "emptyHost = \<lparr>ListContainers = Some [], InspectContainer = (\<lambda>id. None)\<rparr>"

definition unreachableHost :: podman_Client where
  "unreachableHost = \<lparr>ListContainers = None, InspectContainer = (\<lambda>id. None)\<rparr>"

text \<open>A container on two networks, as two range loops may visit them.\<close>

definition twoNetworks :: "(string \<times> string) list" where
  "twoNetworks = [(''backend'', ''10.0.1.7''), (''frontend'', ''10.0.2.7'')]"

definition twoNetworksOtherOrder :: "(string \<times> string) list" where
  "twoNetworksOtherOrder = [(''frontend'', ''10.0.2.7''), (''backend'', ''10.0.1.7'')]"

text \<open>A host whose one container reports the given networks.\<close>

definition twoNetworkHost :: "(string \<times> string) list \<Rightarrow> podman_Client" where
  "twoNetworkHost nets =
     \<lparr>ListContainers = Some [appContainer],
      InspectContainer = (\<lambda>id. if id = ''c1''
         then Some \<lparr>inspect_Id = ''c1'', Networks = nets\<rparr> else None)\<rparr>"

section \<open>The Gandi LiveDNS provider of the DNS-01 challenge\<close>

definition gandiAPI :: string where
  "gandiAPI = ''https://api.gandi.net''"

text \<open>\<open>strings.TrimSuffix\<close>.\<close>

definition strings_TrimSuffix :: "string \<Rightarrow> string \<Rightarrow> string" where
  "strings_TrimSuffix s sfx = (if suffix sfx s then take (length s - length sfx) s else s)"

text \<open>
  The provider struct (the HTTP client is part of the surroundings below), the request
  it builds, and the body of the request that creates the TXT record.
\<close>

record ManualGandiHTTPProvider =
  apiKey :: string
  baseZone :: string

record txt_payload =
  rrset_type :: string
  rrset_values :: "string list"
  rrset_ttl :: nat

record http_Request =
  req_method :: string
  req_url :: string
  req_authorization :: string
  req_body :: "txt_payload option"

text \<open>
  What the provider calls: lego's \<open>dns01.GetRecord\<close> (the challenge fqdn and the TXT
  value for a domain and a key authorization), \<open>http.NewRequest\<close> (which may refuse a
  method and URL) and the HTTP client (\<open>None\<close> for a transport error, otherwise the
  status code of the response).
\<close>

record gandi_env =
  GetRecord :: "string \<Rightarrow> string \<Rightarrow> string \<times> string"
  NewRequestOK :: "string \<Rightarrow> string \<Rightarrow> bool"
  Do :: "http_Request \<Rightarrow> nat option"

datatype provider_error =
  CouldNotDerive string string
  | CleanupCouldNotDerive string string
  | CreateRequestFailed
  | SendRequestFailed
  | ApiError nat

text \<open>
  \<open>Present\<close> and \<open>CleanUp\<close>: the error returned, if any, and the requests sent to the
  API.
\<close>

definition Present :: "ManualGandiHTTPProvider \<Rightarrow> gandi_env \<Rightarrow> string \<Rightarrow> string \<Rightarrow> string \<Rightarrow> provider_error option \<times> http_Request list" where
  "Present p env domain token keyAuth =
     (let fqdn = fst (GetRecord env domain keyAuth);
          val = snd (GetRecord env domain keyAuth);
          recordName = strings_TrimSuffix fqdn (''.'' @ baseZone p @ ''.'')
      in if recordName = fqdn then (Some (CouldNotDerive fqdn (baseZone p)), [])
         else
           (let apiURL = gandiAPI @ ''/v5/livedns/domains/'' @ baseZone p @ ''/records/'' @ recordName;
                payload = \<lparr>rrset_type = ''TXT'', rrset_values = [val], rrset_ttl = 300\<rparr>
            in if \<not> NewRequestOK env ''POST'' apiURL then (Some CreateRequestFailed, [])
               else
                 (let req = \<lparr>req_method = ''POST'', req_url = apiURL,
                              req_authorization = ''Bearer '' @ apiKey p,
                              req_body = Some payload\<rparr>
                  in case Do env req of
                       None \<Rightarrow> (Some SendRequestFailed, [req])
                     | Some status \<Rightarrow>
                         if status \<noteq> 201 then (Some (ApiError status), [req])
                         else (None, [req]))))"

definition CleanUp :: "ManualGandiHTTPProvider \<Rightarrow> gandi_env \<Rightarrow> string \<Rightarrow> string \<Rightarrow> string \<Rightarrow> provider_error option \<times> http_Request list" where
  "CleanUp p env domain token keyAuth =
     (let fqdn = fst (GetRecord env domain keyAuth);
          recordName = strings_TrimSuffix fqdn (''.'' @ baseZone p @ ''.'')
      in if recordName = fqdn then (Some (CleanupCouldNotDerive fqdn (baseZone p)), [])
         else
           (let apiURL = gandiAPI @ ''/v5/livedns/domains/'' @ baseZone p @ ''/records/'' @ recordName @ ''/TXT''
            in if \<not> NewRequestOK env ''DELETE'' apiURL then (Some CreateRequestFailed, [])
               else
                 (let req = \<lparr>req_method = ''DELETE'', req_url = apiURL,
                              req_authorization = ''Bearer '' @ apiKey p,
                              req_body = None\<rparr>
                  in case Do env req of
                       None \<Rightarrow> (Some SendRequestFailed, [req])
                     | Some status \<Rightarrow>
                         if status \<noteq> 204 \<and> status \<noteq> 404 then (Some (ApiError status), [req])
                         else (None, [req]))))"

text \<open>
  A fqdn \<open>F\<close> with the suffix \<open>.Z\<close> stripped; the provider receives names in absolute
  form, \<open>F\<close> followed by the root dot, and strips \<open>.Z.\<close> from them.
\<close>

definition stripZone :: "string \<Rightarrow> string \<Rightarrow> string" where
  "stripZone Z F = take (length F - length (''.'' @ Z)) F"

section \<open>A concrete challenge\<close>

definition exampleProvider :: ManualGandiHTTPProvider where
  "exampleProvider = \<lparr>apiKey = ''secret'', baseZone = ''example.com''\<rparr>"

definition exampleGandi :: gandi_env where
  "exampleGandi =
     \<lparr>GetRecord = (\<lambda>domain keyAuth. (''_acme-challenge.'' @ domain @ ''.'', ''digest-of-'' @ keyAuth)),
      NewRequestOK = (\<lambda>method url. True),
      Do = (\<lambda>req. if req_method req = ''POST'' then Some 201 else Some 204)\<rparr>"

section \<open>Concurrent invocations of CheckAndManageCert\<close>

text \<open>
  The router calls \<open>CheckAndManageCert\<close> from the goroutines of a tick, and nothing in
  the manager orders two calls for the same name: the lock \<open>mu\<close> is held only inside
  \<open>loadCertFromFile\<close> and \<open>GetCertificateForSNI\<close>, around the access to the cache. One
  invocation is cut at the two places where another may run in between for as long as it
  likes: after the if-chain that sets \<open>needsObtain\<close>, and while the request to the ACME
  service is outstanding. An invocation is then at one of four points.
\<close>

datatype progress = AtCheck | AtObtain | InFlight | Finished

text \<open>
  One step of an invocation for \<open>fqdn\<close> on the shared manager: the check; the entry
  into \<open>obtainOrRenewCert\<close> up to the sending of the request; the arrival of the answer
  with all that follows it.
\<close>

fun stepInvocation :: "crypto \<Rightarrow> Time \<Rightarrow> string \<Rightarrow> progress \<Rightarrow> Manager \<Rightarrow> progress \<times> Manager" where
  "stepInvocation cr now fqdn AtCheck m =
     (case needsObtain cr now fqdn m of
        (Some True, m1) \<Rightarrow> (AtObtain, m1)
      | (Some False, m1) \<Rightarrow> (Finished, m1)
      | (None, m1) \<Rightarrow> (Finished, m1))"
| "stepInvocation cr now fqdn AtObtain m =
     (let m0 = emit (EvObtainCalled fqdn) m
      in case legoClient m0 of
           None \<Rightarrow> (Finished, m0)
         | Some client \<Rightarrow> (InFlight, emit (EvAcmeRequest fqdn) m0))"
| "stepInvocation cr now fqdn InFlight m =
     (case legoClient m of
        None \<Rightarrow> (Finished, m)
      | Some client \<Rightarrow>
          (case client fqdn of
             Inl err \<Rightarrow> (Finished, m)
           | Inr certRes \<Rightarrow> (Finished, snd (storeObtained cr fqdn certRes m))))"
| "stepInvocation cr now fqdn Finished m = (Finished, m)"

text \<open>
  Several invocations for the same name, run in the interleaving \<open>sched\<close>: each entry
  of \<open>sched\<close> names the invocation that takes the next step.
\<close>

fun run :: "crypto \<Rightarrow> Time \<Rightarrow> string \<Rightarrow> nat list \<Rightarrow> progress list \<times> Manager \<Rightarrow> progress list \<times> Manager" where
  "run cr now fqdn [] c = c"
| "run cr now fqdn (i # sched) (ps, m) =
     (if i < length ps
      then run cr now fqdn sched
             (ps[i := fst (stepInvocation cr now fqdn (ps ! i) m)],
              snd (stepInvocation cr now fqdn (ps ! i) m))
      else run cr now fqdn sched (ps, m))"

definition inFlight :: "progress list \<Rightarrow> nat" where
  "inFlight ps = length (filter (\<lambda>p. p = InFlight) ps)"

text \<open>Where an invocation stands after a number of steps, none of them the third.\<close>

fun progressAfter :: "nat \<Rightarrow> progress" where
  "progressAfter 0 = AtCheck"
| "progressAfter (Suc 0) = AtObtain"
| "progressAfter (Suc (Suc n)) = InFlight"

section \<open>Properties of the certificate manager\<close>

text \<open>
  C9. A handshake whose requested server name is the empty string fails with the
  missing-server-name error; the answer is the same whatever the cache and the
  certificate directory hold, and the manager is left exactly as it was: nothing is
  read, neither from the cache nor from the directory.
\<close>

theorem C9_empty_server_name:
  "GetCertificateForSNI cr [] m = (Inl MissingServerName, m)"
  by (simp add: GetCertificateForSNI_def)

lemma emit_simps [simp]:
  "certs (emit e m) = certs m" "fs (emit e m) = fs m" "legoClient (emit e m) = legoClient m"
  "renewBefore (emit e m) = renewBefore m" "trace (emit e m) = trace m @ [e]"
  by (simp_all add: emit_def)

lemma load_fs [simp]: "fs (snd (loadCertFromFile cr fqdn m)) = fs m"
  by (simp add: loadCertFromFile_def Let_def split: sum.splits option.splits list.splits)

lemma load_legoClient [simp]: "legoClient (snd (loadCertFromFile cr fqdn m)) = legoClient m"
  by (simp add: loadCertFromFile_def Let_def split: sum.splits option.splits list.splits)

lemma load_renewBefore [simp]: "renewBefore (snd (loadCertFromFile cr fqdn m)) = renewBefore m"
  by (simp add: loadCertFromFile_def Let_def split: sum.splits option.splits list.splits)

lemma load_trace: "trace (snd (loadCertFromFile cr fqdn m)) = trace m @ loadReads (fs m) fqdn"
  by (simp add: loadCertFromFile_def loadReads_def Let_def split: sum.splits option.splits list.splits)

lemma load_Some:
  "persistedRecord cr (fs m) fqdn = Some (c, t) \<Longrightarrow>
   fst (loadCertFromFile cr fqdn m) = Inr t \<and>
   certs (snd (loadCertFromFile cr fqdn m)) = (certs m)(fqdn \<mapsto> c)"
  by (auto simp: loadCertFromFile_def persistedRecord_def Let_def split: sum.splits option.splits list.splits)

lemma load_None:
  "persistedRecord cr (fs m) fqdn = None \<Longrightarrow>
   (\<exists>e. fst (loadCertFromFile cr fqdn m) = Inl e) \<and>
   certs (snd (loadCertFromFile cr fqdn m)) = certs m"
  by (auto simp: loadCertFromFile_def persistedRecord_def Let_def split: sum.splits option.splits list.splits)

lemma obtainCalls_append [simp]: "obtainCalls (xs @ ys) = obtainCalls xs @ obtainCalls ys"
  by (simp add: obtainCalls_def)

lemma acmeRequests_append [simp]: "acmeRequests (xs @ ys) = acmeRequests xs @ acmeRequests ys"
  by (simp add: acmeRequests_def)

lemma fileWrites_append [simp]: "fileWrites (xs @ ys) = fileWrites xs @ fileWrites ys"
  by (simp add: fileWrites_def)

lemma obtainCalls_simps [simp]:
  "obtainCalls [] = []"
  "obtainCalls (EvObtainCalled f # es) = f # obtainCalls es"
  "obtainCalls (EvAcmeRequest f # es) = obtainCalls es"
  "obtainCalls (EvStat p # es) = obtainCalls es"
  "obtainCalls (EvRead p # es) = obtainCalls es"
  "obtainCalls (EvWrite p # es) = obtainCalls es"
  by (simp_all add: obtainCalls_def)

lemma acmeRequests_simps [simp]:
  "acmeRequests [] = []"
  "acmeRequests (EvObtainCalled f # es) = acmeRequests es"
  "acmeRequests (EvAcmeRequest f # es) = f # acmeRequests es"
  "acmeRequests (EvStat p # es) = acmeRequests es"
  "acmeRequests (EvRead p # es) = acmeRequests es"
  "acmeRequests (EvWrite p # es) = acmeRequests es"
  by (simp_all add: acmeRequests_def)

lemma fileWrites_simps [simp]:
  "fileWrites [] = []"
  "fileWrites (EvObtainCalled f # es) = fileWrites es"
  "fileWrites (EvAcmeRequest f # es) = fileWrites es"
  "fileWrites (EvStat p # es) = fileWrites es"
  "fileWrites (EvRead p # es) = fileWrites es"
  "fileWrites (EvWrite p # es) = p # fileWrites es"
  by (simp_all add: fileWrites_def)

lemma loadReads_silent [simp]:
  "obtainCalls (loadReads f fqdn) = []" "acmeRequests (loadReads f fqdn) = []"
  "fileWrites (loadReads f fqdn) = []"
  by (simp_all add: loadReads_def split: sum.splits)

lemma GetCertificateForSNI_hit:
  "serverName \<noteq> [] \<Longrightarrow> certs m serverName = Some cert \<Longrightarrow>
   GetCertificateForSNI cr serverName m = (Inr cert, m)"
  by (simp add: GetCertificateForSNI_def)

lemma GetCertificateForSNI_miss:
  "serverName \<noteq> [] \<Longrightarrow> certs m serverName = None \<Longrightarrow>
   snd (GetCertificateForSNI cr serverName m) = snd (loadCertFromFile cr serverName m)"
  by (simp add: GetCertificateForSNI_def split: prod.splits sum.splits option.splits)

lemma GetCertificateForSNI_loaded:
  assumes "serverName \<noteq> []" "certs m serverName = None"
    "persistedRecord cr (fs m) serverName = Some (cert, t)"
  shows "fst (GetCertificateForSNI cr serverName m) = Inr cert"
proof -
  obtain r m1 where l: "loadCertFromFile cr serverName m = (r, m1)"
    by (cases "loadCertFromFile cr serverName m")
  from load_Some [OF assms(3)] l have "r = Inr t" "certs m1 serverName = Some cert"
    by simp_all
  with assms(1,2) l show ?thesis
    by (simp add: GetCertificateForSNI_def)
qed

lemma GetCertificateForSNI_absent:
  assumes "serverName \<noteq> []" "certs m serverName = None"
    "persistedRecord cr (fs m) serverName = None"
  shows "fst (GetCertificateForSNI cr serverName m) = Inl (NotAvailable serverName)"
proof -
  obtain r m1 where l: "loadCertFromFile cr serverName m = (r, m1)"
    by (cases "loadCertFromFile cr serverName m")
  from load_None [OF assms(3)] l obtain e where "r = Inl e"
    by auto
  with assms(1,2) l show ?thesis
    by (simp add: GetCertificateForSNI_def)
qed

text \<open>
  C7. For a requested server name that is not empty, the handshake-time lookup returns
  the cached certificate when the cache has one, leaving the manager as it was. On a
  cache miss it makes the file reads of one load of the persisted pair and no more: when
  the directory holds a loadable record, that record is returned and cached under the
  name; when it does not, the lookup fails with the not-available error and the cache is
  unchanged. For every name, the empty one included, the lookup never enters
  \<open>obtainOrRenewCert\<close>, sends nothing to the ACME service, writes no file and leaves
  the certificate directory as it was.
\<close>

theorem C7_lookup:
  "(serverName \<noteq> [] \<longrightarrow>
      (case certs m serverName of
         Some cert \<Rightarrow> GetCertificateForSNI cr serverName m = (Inr cert, m)
       | None \<Rightarrow>
           (case persistedRecord cr (fs m) serverName of
              Some (cert, t) \<Rightarrow>
                fst (GetCertificateForSNI cr serverName m) = Inr cert \<and>
                certs (snd (GetCertificateForSNI cr serverName m)) = (certs m)(serverName \<mapsto> cert)
            | None \<Rightarrow>
                fst (GetCertificateForSNI cr serverName m) = Inl (NotAvailable serverName) \<and>
                certs (snd (GetCertificateForSNI cr serverName m)) = certs m) \<and>
           trace (snd (GetCertificateForSNI cr serverName m)) = trace m @ loadReads (fs m) serverName)) \<and>
   fs (snd (GetCertificateForSNI cr serverName m)) = fs m \<and>
   obtainCalls (trace (snd (GetCertificateForSNI cr serverName m))) = obtainCalls (trace m) \<and>
   acmeRequests (trace (snd (GetCertificateForSNI cr serverName m))) = acmeRequests (trace m) \<and>
   fileWrites (trace (snd (GetCertificateForSNI cr serverName m))) = fileWrites (trace m)"
proof (cases "serverName = []")
  case True
  then show ?thesis by (simp add: GetCertificateForSNI_def)
next
  case ne: False
  show ?thesis
  proof (cases "certs m serverName")
    case (Some cert)
    with ne show ?thesis by (simp add: GetCertificateForSNI_hit)
  next
    case None
    note miss = GetCertificateForSNI_miss [OF ne None, of cr]
    show ?thesis
    proof (cases "persistedRecord cr (fs m) serverName")
      case pn: None
      from ne None pn show ?thesis
        by (simp add: miss load_trace GetCertificateForSNI_absent load_None)
    next
      case (Some p)
      then obtain cert t where p: "persistedRecord cr (fs m) serverName = Some (cert, t)"
        by (cases p) simp
      from ne None p show ?thesis
        by (simp add: miss load_trace GetCertificateForSNI_loaded [OF ne None p] load_Some)
    qed
  qed
qed

lemma time_Until_less:
  assumes "minDuration < rb" "rb \<le> maxDuration"
  shows "time_Until now t < rb \<longleftrightarrow> now > t - rb"
  using assms by (auto simp: time_Until_def time_Sub_def)

lemma Stat_of_readable:
  "os_ReadFile f p = Inr d \<Longrightarrow> os_Stat f p = None"
  by (simp add: os_ReadFile_def os_Stat_def split: fentry.splits)

lemma persisted_Stat:
  "persistedRecord cr f fqdn = Some r \<Longrightarrow>
   os_Stat f (filepath_Join certificatesPath (fqdn @ ''.crt'')) = None"
  by (auto simp: persistedRecord_def dest: Stat_of_readable split: sum.splits)

lemma os_WriteFile_cases:
  obtains (fail) err where "os_WriteFile f p d = (Some err, f)"
  | (ok) "os_WriteFile f p d = (None, f\<lparr>entry := (entry f)(p := Data d)\<rparr>)"
  by (cases "wfail f p") (auto simp: os_WriteFile_def)

lemma store_calls:
  "obtainCalls (trace (snd (storeObtained cr fqdn res m))) = obtainCalls (trace m)"
proof -
  let ?cf = "filepath_Join certificatesPath (fqdn @ ''.crt'')"
  let ?kf = "filepath_Join certificatesPath (fqdn @ ''.key'')"
  show ?thesis
  proof (cases "wfail (fs m) ?cf")
    case True
    then show ?thesis by (simp add: storeObtained_def os_WriteFile_def Let_def)
  next
    case c: False
    show ?thesis
    proof (cases "wfail (fs m) ?kf")
      case True
      with c show ?thesis by (simp add: storeObtained_def os_WriteFile_def Let_def)
    next
      case False
      with c show ?thesis by (simp add: storeObtained_def os_WriteFile_def load_trace Let_def)
    qed
  qed
qed

lemma obtain_calls:
  "obtainCalls (trace (snd (obtainOrRenewCert cr fqdn m))) = obtainCalls (trace m) @ [fqdn]"
proof (cases "legoClient m")
  case None
  then show ?thesis by (simp add: obtainOrRenewCert_def)
next
  case (Some client)
  then show ?thesis
    by (cases "client fqdn") (simp_all add: obtainOrRenewCert_def store_calls)
qed

lemma needsObtain_calls:
  "obtainCalls (trace (snd (needsObtain cr now fqdn m))) = obtainCalls (trace m)"
proof -
  let ?m1 = "emit (EvStat (filepath_Join certificatesPath (fqdn @ ''.crt''))) m"
  obtain r m2 where l: "loadCertFromFile cr fqdn ?m1 = (r, m2)"
    by (cases "loadCertFromFile cr fqdn ?m1")
  from load_trace [of cr fqdn ?m1] l
  have "obtainCalls (trace m2) = obtainCalls (trace m)" by simp
  with l show ?thesis
    by (cases "os_Stat (fs m) (filepath_Join certificatesPath (fqdn @ ''.crt''))"; cases r)
       (simp_all add: needsObtain_def Let_def split: os_error.splits)
qed

lemma needsObtain_loadable:
  assumes "persistedRecord cr (fs m) fqdn = Some (c, notAfter)"
  shows "fst (needsObtain cr now fqdn m) = Some (time_Until now notAfter < renewBefore m)"
proof -
  let ?m1 = "emit (EvStat (filepath_Join certificatesPath (fqdn @ ''.crt''))) m"
  have p: "persistedRecord cr (fs ?m1) fqdn = Some (c, notAfter)"
    using assms by simp
  obtain r m2 where l: "loadCertFromFile cr fqdn ?m1 = (r, m2)"
    by (cases "loadCertFromFile cr fqdn ?m1")
  from load_Some [OF p] l have r: "r = Inr notAfter" by simp
  from load_renewBefore [of cr fqdn ?m1] l have rb: "renewBefore m2 = renewBefore m" by simp
  from persisted_Stat [OF assms] l r rb show ?thesis
    by (simp add: needsObtain_def Let_def)
qed

lemma needsObtain_absent:
  assumes "os_Stat (fs m) (filepath_Join certificatesPath (fqdn @ ''.crt'')) = Some ErrNotExist"
  shows "fst (needsObtain cr now fqdn m) = Some True"
  using assms by (simp add: needsObtain_def Let_def)

lemma needsObtain_corrupt:
  assumes "os_Stat (fs m) (filepath_Join certificatesPath (fqdn @ ''.crt'')) = None"
    and "persistedRecord cr (fs m) fqdn = None"
  shows "fst (needsObtain cr now fqdn m) = Some False"
proof -
  let ?m1 = "emit (EvStat (filepath_Join certificatesPath (fqdn @ ''.crt''))) m"
  have p: "persistedRecord cr (fs ?m1) fqdn = None"
    using assms by simp
  obtain r m2 where l: "loadCertFromFile cr fqdn ?m1 = (r, m2)"
    by (cases "loadCertFromFile cr fqdn ?m1")
  from load_None [OF p] l obtain e where "r = Inl e" by auto
  with assms(1) l show ?thesis
    by (simp add: needsObtain_def Let_def)
qed

lemma Check_by_needsObtain:
  "CheckAndManageCert cr now fqdn m =
     (if fst (needsObtain cr now fqdn m) = Some True
      then snd (obtainOrRenewCert cr fqdn (snd (needsObtain cr now fqdn m)))
      else snd (needsObtain cr now fqdn m))"
  by (simp add: CheckAndManageCert_def split: prod.splits option.splits bool.splits)


lemma needsObtain_fs [simp]: "fs (snd (needsObtain cr now fqdn m)) = fs m"
proof -
  let ?m1 = "emit (EvStat (filepath_Join certificatesPath (fqdn @ ''.crt''))) m"
  obtain r m2 where l: "loadCertFromFile cr fqdn ?m1 = (r, m2)"
    by (cases "loadCertFromFile cr fqdn ?m1")
  from load_fs [of cr fqdn ?m1] l have "fs m2 = fs m" by simp
  with l show ?thesis
    by (cases "os_Stat (fs m) (filepath_Join certificatesPath (fqdn @ ''.crt''))"; cases r)
       (simp_all add: needsObtain_def Let_def split: os_error.splits)
qed

lemma needsObtain_requests:
  "acmeRequests (trace (snd (needsObtain cr now fqdn m))) = acmeRequests (trace m) \<and>
   fileWrites (trace (snd (needsObtain cr now fqdn m))) = fileWrites (trace m)"
proof -
  let ?m1 = "emit (EvStat (filepath_Join certificatesPath (fqdn @ ''.crt''))) m"
  obtain r m2 where l: "loadCertFromFile cr fqdn ?m1 = (r, m2)"
    by (cases "loadCertFromFile cr fqdn ?m1")
  from load_trace [of cr fqdn ?m1] l
  have "acmeRequests (trace m2) = acmeRequests (trace m)"
    "fileWrites (trace m2) = fileWrites (trace m)" by simp_all
  with l show ?thesis
    by (cases "os_Stat (fs m) (filepath_Join certificatesPath (fqdn @ ''.crt''))"; cases r)
       (simp_all add: needsObtain_def Let_def split: os_error.splits)
qed

lemma needsObtain_corrupt_certs:
  assumes "os_Stat (fs m) (filepath_Join certificatesPath (fqdn @ ''.crt'')) = None"
    and "persistedRecord cr (fs m) fqdn = None"
  shows "certs (snd (needsObtain cr now fqdn m)) = certs m"
proof -
  let ?m1 = "emit (EvStat (filepath_Join certificatesPath (fqdn @ ''.crt''))) m"
  have p: "persistedRecord cr (fs ?m1) fqdn = None"
    using assms by simp
  obtain r m2 where l: "loadCertFromFile cr fqdn ?m1 = (r, m2)"
    by (cases "loadCertFromFile cr fqdn ?m1")
  from load_None [OF p] l obtain e where "r = Inl e" "certs m2 = certs m" by auto
  with assms(1) l show ?thesis
    by (simp add: needsObtain_def Let_def)
qed

text \<open>
  C10, as the code has it. When the certificate file exists (\<open>os.Stat\<close> succeeds) but
  the pair does not load, \<open>CheckAndManageCert\<close> does not enter \<open>obtainOrRenewCert\<close>: no
  request goes to the ACME service, no file is written, the directory and the cache are
  as before. A handshake for that name then fails with the not-available error when the
  cache holds no certificate for it, and is served the cached certificate when the cache
  holds one.
\<close>

theorem C10_unloadable_pair_is_left_alone:
  assumes "os_Stat (fs m) (filepath_Join certificatesPath (fqdn @ ''.crt'')) = None"
    and "persistedRecord cr (fs m) fqdn = None"
  shows "obtainCalls (trace (CheckAndManageCert cr now fqdn m)) = obtainCalls (trace m) \<and>
         acmeRequests (trace (CheckAndManageCert cr now fqdn m)) = acmeRequests (trace m) \<and>
         fileWrites (trace (CheckAndManageCert cr now fqdn m)) = fileWrites (trace m) \<and>
         fs (CheckAndManageCert cr now fqdn m) = fs m \<and>
         certs (CheckAndManageCert cr now fqdn m) = certs m \<and>
         (fqdn \<noteq> [] \<and> certs m fqdn = None \<longrightarrow>
            fst (GetCertificateForSNI cr fqdn (CheckAndManageCert cr now fqdn m)) =
              Inl (NotAvailable fqdn)) \<and>
         (fqdn \<noteq> [] \<and> certs m fqdn = Some cert \<longrightarrow>
            fst (GetCertificateForSNI cr fqdn (CheckAndManageCert cr now fqdn m)) = Inr cert)"
proof -
  let ?m' = "CheckAndManageCert cr now fqdn m"
  have eq: "?m' = snd (needsObtain cr now fqdn m)"
    by (simp add: Check_by_needsObtain needsObtain_corrupt [OF assms])
  have c: "certs ?m' = certs m"
    by (simp add: eq needsObtain_corrupt_certs [OF assms])
  have f: "fs ?m' = fs m"
    by (simp add: eq)
  have 1: "fst (GetCertificateForSNI cr fqdn ?m') = Inl (NotAvailable fqdn)"
    if "fqdn \<noteq> []" "certs m fqdn = None"
    using that assms(2) by (intro GetCertificateForSNI_absent) (simp_all add: c f)
  have 2: "fst (GetCertificateForSNI cr fqdn ?m') = Inr cert"
    if "fqdn \<noteq> []" "certs m fqdn = Some cert"
    using that GetCertificateForSNI_hit [of fqdn ?m' cert cr] by (simp add: c)
  from 1 2 show ?thesis
    using c f by (simp add: eq needsObtain_calls needsObtain_requests)
qed

lemma store_result:
  "certs (snd (storeObtained cr fqdn res m)) = certs m \<and>
     (fst (storeObtained cr fqdn res m) \<noteq> None \<or>
      persistedRecord cr (fs (snd (storeObtained cr fqdn res m))) fqdn = None) \<or>
   fst (storeObtained cr fqdn res m) = None \<and>
     (\<exists>c t. persistedRecord cr (fs (snd (storeObtained cr fqdn res m))) fqdn = Some (c, t) \<and>
            certs (snd (storeObtained cr fqdn res m)) = (certs m)(fqdn \<mapsto> c))"
proof -
  let ?cf = "filepath_Join certificatesPath (fqdn @ ''.crt'')"
  let ?kf = "filepath_Join certificatesPath (fqdn @ ''.key'')"
  show ?thesis
  proof (cases "wfail (fs m) ?cf")
    case True
    then show ?thesis by (simp add: storeObtained_def os_WriteFile_def Let_def)
  next
    case c: False
    show ?thesis
    proof (cases "wfail (fs m) ?kf")
      case True
      with c show ?thesis by (simp add: storeObtained_def os_WriteFile_def Let_def)
    next
      case k: False
      define f2 where "f2 = (fs m)\<lparr>entry := (entry (fs m))(?cf := Data (res_Certificate res),
        ?kf := Data (res_PrivateKey res))\<rparr>"
      define m3 where "m3 = (emit (EvWrite ?kf) (emit (EvWrite ?cf) m))\<lparr>fs := f2\<rparr>"
      have st: "storeObtained cr fqdn res m = (None, snd (loadCertFromFile cr fqdn m3))"
        using c k by (simp add: storeObtained_def os_WriteFile_def Let_def m3_def f2_def emit_def)
      have m3: "fs m3 = f2" "certs m3 = certs m"
        by (simp_all add: m3_def)
      show ?thesis
      proof (cases "persistedRecord cr f2 fqdn")
        case None
        with load_None [of cr m3 fqdn] m3 show ?thesis by (simp add: st)
      next
        case (Some p)
        obtain c t where "p = (c, t)" by (cases p)
        with Some load_Some [of cr m3 fqdn c t] m3 show ?thesis by (simp add: st)
      qed
    qed
  qed
qed

lemmas example_defs =
  exampleCrypto_def exampleFiles_def exampleAcme_def rateLimitedAcme_def exampleManager_def
  certA_def certB_def keyReadOnlyManager_def day_def
  filepath_Join_def certificatesPath_def os_ReadFile_def os_Stat_def os_WriteFile_def
  minDuration_def maxDuration_def Let_def

lemma persisted_app:
  "persistedRecord exampleCrypto exampleFiles ''app.example.com'' = Some (certA, 110 * day)"
  by (simp add: persistedRecord_def example_defs)

lemma persisted_broken:
  "persistedRecord exampleCrypto exampleFiles ''broken.example.com'' = None"
  by (simp add: persistedRecord_def example_defs)

text \<open>
  C4, as the code has it. When \<open>obtainOrRenewCert\<close> returns an error, the cache is
  unchanged. When the error is that of the missing client or of the ACME exchange, the
  certificate directory is unchanged too. The cache changes only when the call returns
  no error and the files it has just written load and parse: the new cache entry, under
  the same name, is the record those files hold.
\<close>

theorem C4_failed_obtain:
  "(fst (obtainOrRenewCert cr fqdn m) \<noteq> None \<longrightarrow>
      certs (snd (obtainOrRenewCert cr fqdn m)) = certs m) \<and>
   (fst (obtainOrRenewCert cr fqdn m) = Some ClientNotInitialized \<or>
    (\<exists>e. fst (obtainOrRenewCert cr fqdn m) = Some (ObtainFailed e)) \<longrightarrow>
      fs (snd (obtainOrRenewCert cr fqdn m)) = fs m) \<and>
   (certs (snd (obtainOrRenewCert cr fqdn m)) \<noteq> certs m \<longrightarrow>
      fst (obtainOrRenewCert cr fqdn m) = None \<and>
      (\<exists>c t. persistedRecord cr (fs (snd (obtainOrRenewCert cr fqdn m))) fqdn = Some (c, t) \<and>
             certs (snd (obtainOrRenewCert cr fqdn m)) = (certs m)(fqdn \<mapsto> c)))"
proof (cases "legoClient m")
  case None
  then show ?thesis by (simp add: obtainOrRenewCert_def)
next
  case (Some client)
  show ?thesis
  proof (cases "client fqdn")
    case (Inl err)
    with Some show ?thesis by (simp add: obtainOrRenewCert_def)
  next
    case (Inr res)
    let ?m1 = "emit (EvAcmeRequest fqdn) (emit (EvObtainCalled fqdn) m)"
    have eq: "obtainOrRenewCert cr fqdn m = storeObtained cr fqdn res ?m1"
      using Some Inr by (simp add: obtainOrRenewCert_def)
    have noacme: "fst (storeObtained cr fqdn res ?m1) \<noteq> Some ClientNotInitialized"
      "\<And>e. fst (storeObtained cr fqdn res ?m1) \<noteq> Some (ObtainFailed e)"
      by (simp_all add: storeObtained_def os_WriteFile_def Let_def)
    from store_result [of cr fqdn res ?m1] noacme show ?thesis
      unfolding eq by auto
  qed
qed

text \<open>
  C4 at concrete inputs: a refused order leaves cache and directory alone; an issued
  cert-B replaces the record of \<open>app.example.com\<close> in both.
\<close>

theorem C4_failed_obtain_witness:
  "fst (obtainOrRenewCert exampleCrypto ''app.example.com''
          (exampleManager\<lparr>legoClient := Some rateLimitedAcme\<rparr>)) = Some (ObtainFailed RateLimited) \<and>
   certs (snd (obtainOrRenewCert exampleCrypto ''app.example.com''
          (exampleManager\<lparr>legoClient := Some rateLimitedAcme\<rparr>))) = Map.empty \<and>
   fs (snd (obtainOrRenewCert exampleCrypto ''app.example.com''
          (exampleManager\<lparr>legoClient := Some rateLimitedAcme\<rparr>))) = exampleFiles \<and>
   certs (snd (obtainOrRenewCert exampleCrypto ''app.example.com'' exampleManager))
      ''app.example.com'' = Some certB \<and>
   fst (obtainOrRenewCert exampleCrypto ''app.example.com'' exampleManager) = None \<and>
   persistedRecord exampleCrypto
      (fs (snd (obtainOrRenewCert exampleCrypto ''app.example.com'' exampleManager)))
      ''app.example.com'' = Some (certB, 190 * day)"
proof -
  let ?bad = "exampleManager\<lparr>legoClient := Some rateLimitedAcme\<rparr>"
  have f: "fst (obtainOrRenewCert exampleCrypto ''app.example.com'' ?bad) =
      Some (ObtainFailed RateLimited)"
    by (simp add: obtainOrRenewCert_def example_defs)
  have b: "certs ?bad = Map.empty" "fs ?bad = exampleFiles"
    by (simp_all add: exampleManager_def)
  have g: "certs (snd (obtainOrRenewCert exampleCrypto ''app.example.com'' exampleManager))
      ''app.example.com'' = Some certB"
    by (simp add: obtainOrRenewCert_def storeObtained_def loadCertFromFile_def emit_def
        example_defs)
  have e: "certs exampleManager ''app.example.com'' = None"
    by (simp add: exampleManager_def)
  from g e have ne: "certs (snd (obtainOrRenewCert exampleCrypto ''app.example.com'' exampleManager))
      \<noteq> certs exampleManager"
    by (metis option.distinct(1))
  from C4_failed_obtain [of exampleCrypto "''app.example.com''" ?bad] f b
  have 1: "certs (snd (obtainOrRenewCert exampleCrypto ''app.example.com'' ?bad)) = Map.empty"
    "fs (snd (obtainOrRenewCert exampleCrypto ''app.example.com'' ?bad)) = exampleFiles"
    by simp_all
  from C4_failed_obtain [of exampleCrypto "''app.example.com''" exampleManager] ne
  obtain c t where 2: "fst (obtainOrRenewCert exampleCrypto ''app.example.com'' exampleManager) = None"
    "persistedRecord exampleCrypto
      (fs (snd (obtainOrRenewCert exampleCrypto ''app.example.com'' exampleManager)))
      ''app.example.com'' = Some (c, t)"
    "certs (snd (obtainOrRenewCert exampleCrypto ''app.example.com'' exampleManager)) =
       (certs exampleManager)(''app.example.com'' \<mapsto> c)"
    by blast
  from 2(3) g have c: "c = certB" by simp
  have t: "persistedRecord exampleCrypto
      (fs (snd (obtainOrRenewCert exampleCrypto ''app.example.com'' exampleManager)))
      ''app.example.com'' = Some (certB, 190 * day)"
    by (simp add: obtainOrRenewCert_def storeObtained_def persistedRecord_def emit_def
        example_defs)
  from f 1 g 2(1) t show ?thesis by simp
qed

text \<open>
  C4 as stated fails: the directory holds the valid pair of cert-A, the service issues
  cert-B, the certificate file is written and the write of the key file fails. The call
  returns the error of the key file, and the directory now holds cert-B beside the key
  of cert-A, a pair that no longer loads.
\<close>

theorem C4_key_write_failure_counterexample:
  "persistedRecord exampleCrypto (fs keyReadOnlyManager) ''app.example.com'' = Some (certA, 110 * day) \<and>
   fst (obtainOrRenewCert exampleCrypto ''app.example.com'' keyReadOnlyManager) =
     Some (SavePrivateKeyFailed ErrOther) \<and>
   entry (fs (snd (obtainOrRenewCert exampleCrypto ''app.example.com'' keyReadOnlyManager)))
     ''/certs/app.example.com.crt'' = Data ''cert-B'' \<and>
   entry (fs (snd (obtainOrRenewCert exampleCrypto ''app.example.com'' keyReadOnlyManager)))
     ''/certs/app.example.com.key'' = Data ''key-of-cert-A'' \<and>
   persistedRecord exampleCrypto
     (fs (snd (obtainOrRenewCert exampleCrypto ''app.example.com'' keyReadOnlyManager)))
     ''app.example.com'' = None"
  by (simp add: obtainOrRenewCert_def storeObtained_def persistedRecord_def emit_def
      example_defs)

text \<open>
  C7 at concrete inputs: a lazy load that succeeds, one that fails, and a cache hit.
\<close>

theorem C7_lookup_witness:
  "fst (GetCertificateForSNI exampleCrypto ''app.example.com'' exampleManager) = Inr certA \<and>
   certs (snd (GetCertificateForSNI exampleCrypto ''app.example.com'' exampleManager)) =
     [''app.example.com'' \<mapsto> certA] \<and>
   fst (GetCertificateForSNI exampleCrypto ''broken.example.com'' exampleManager) =
     Inl (NotAvailable ''broken.example.com'') \<and>
   GetCertificateForSNI exampleCrypto ''app.example.com'' keyReadOnlyManager =
     (Inr certA, keyReadOnlyManager)"
proof -
  have m: "certs exampleManager = Map.empty" "fs exampleManager = exampleFiles"
    by (simp_all add: exampleManager_def)
  have k: "certs keyReadOnlyManager ''app.example.com'' = Some certA"
    by (simp add: keyReadOnlyManager_def)
  from C7_lookup [where serverName = "''app.example.com''" and m = exampleManager and cr = exampleCrypto] persisted_app m
  have 1: "fst (GetCertificateForSNI exampleCrypto ''app.example.com'' exampleManager) = Inr certA"
    "certs (snd (GetCertificateForSNI exampleCrypto ''app.example.com'' exampleManager)) =
     [''app.example.com'' \<mapsto> certA]"
    by simp_all
  from C7_lookup [where serverName = "''broken.example.com''" and m = exampleManager and cr = exampleCrypto] persisted_broken m
  have 2: "fst (GetCertificateForSNI exampleCrypto ''broken.example.com'' exampleManager) =
     Inl (NotAvailable ''broken.example.com'')"
    by simp
  from C7_lookup [where serverName = "''app.example.com''" and m = keyReadOnlyManager and cr = exampleCrypto] k
  have 3: "GetCertificateForSNI exampleCrypto ''app.example.com'' keyReadOnlyManager =
     (Inr certA, keyReadOnlyManager)"
    by simp
  from 1 2 3 show ?thesis by simp
qed


text \<open>C10 at a concrete input: the certificate file of \<open>broken.example.com\<close> has no key.\<close>

theorem C10_unloadable_pair_is_left_alone_witness:
  "os_Stat (fs exampleManager) (filepath_Join certificatesPath (''broken.example.com'' @ ''.crt'')) = None \<and>
   persistedRecord exampleCrypto (fs exampleManager) ''broken.example.com'' = None \<and>
   obtainCalls (trace (CheckAndManageCert exampleCrypto (100 * day) ''broken.example.com'' exampleManager)) = [] \<and>
   fs (CheckAndManageCert exampleCrypto (100 * day) ''broken.example.com'' exampleManager) = exampleFiles \<and>
   fst (GetCertificateForSNI exampleCrypto ''broken.example.com''
         (CheckAndManageCert exampleCrypto (100 * day) ''broken.example.com'' exampleManager)) =
     Inl (NotAvailable ''broken.example.com'')"
proof -
  have s: "os_Stat (fs exampleManager) (filepath_Join certificatesPath (''broken.example.com'' @ ''.crt'')) = None"
    by (simp add: example_defs)
  have p: "persistedRecord exampleCrypto (fs exampleManager) ''broken.example.com'' = None"
    using persisted_broken by (simp add: exampleManager_def)
  have t: "trace exampleManager = []" "fs exampleManager = exampleFiles"
    "certs exampleManager = Map.empty"
    by (simp_all add: exampleManager_def)
  from C10_unloadable_pair_is_left_alone [OF s p, where now = "100 * day"] s p t show ?thesis
    by simp
qed

lemma stale_state:
  "certs staleManager ''app.example.com'' = Some certA"
  "os_Stat (fs staleManager) (filepath_Join certificatesPath (''app.example.com'' @ ''.crt'')) = None"
  "persistedRecord exampleCrypto (fs staleManager) ''app.example.com'' = None"
  "trace staleManager =
     [EvObtainCalled ''app.example.com'', EvAcmeRequest ''app.example.com'',
      EvWrite ''/certs/app.example.com.crt'', EvWrite ''/certs/app.example.com.key'']"
  by (simp_all add: staleManager_def obtainOrRenewCert_def storeObtained_def persistedRecord_def
      emit_def example_defs)

text \<open>
  C10 as stated fails in its last clause. After the renewal that failed on the key file,
  the directory holds a pair that does not load while the cache still holds cert-A:
  \<open>CheckAndManageCert\<close> leaves the pair alone, and the handshake for the name does not
  fail, it is served cert-A from the cache.
\<close>

theorem C10_stale_cache_counterexample:
  "os_Stat (fs staleManager) (filepath_Join certificatesPath (''app.example.com'' @ ''.crt'')) = None \<and>
   persistedRecord exampleCrypto (fs staleManager) ''app.example.com'' = None \<and>
   obtainCalls (trace (CheckAndManageCert exampleCrypto (100 * day) ''app.example.com'' staleManager)) =
     obtainCalls (trace staleManager) \<and>
   fst (GetCertificateForSNI exampleCrypto ''app.example.com''
         (CheckAndManageCert exampleCrypto (100 * day) ''app.example.com'' staleManager)) = Inr certA"
proof -
  have eq: "CheckAndManageCert exampleCrypto (100 * day) ''app.example.com'' staleManager =
      snd (needsObtain exampleCrypto (100 * day) ''app.example.com'' staleManager)"
    by (simp add: Check_by_needsObtain needsObtain_corrupt [OF stale_state(2,3)])
  have c: "certs (CheckAndManageCert exampleCrypto (100 * day) ''app.example.com'' staleManager)
      ''app.example.com'' = Some certA"
    by (simp add: eq needsObtain_corrupt_certs [OF stale_state(2,3)] stale_state(1))
  have l: "fst (GetCertificateForSNI exampleCrypto ''app.example.com''
         (CheckAndManageCert exampleCrypto (100 * day) ''app.example.com'' staleManager)) = Inr certA"
    using GetCertificateForSNI_hit [OF _ c, of exampleCrypto] by simp
  have o: "obtainCalls (trace (CheckAndManageCert exampleCrypto (100 * day) ''app.example.com'' staleManager)) =
     obtainCalls (trace staleManager)"
    by (simp add: eq needsObtain_calls)
  from stale_state(2,3) o l show ?thesis by simp
qed

section \<open>Properties of the router\<close>

text \<open>\<open>strconv_Atoi\<close> on port labels, well formed and not.\<close>

lemma atoi_8080: "strconv_Atoi ''8080'' = Some 8080"
  by (simp add: strconv_Atoi_def)

lemma atoi_bad: "strconv_Atoi ''80a'' = None" "strconv_Atoi '''' = None" "strconv_Atoi ''-'' = None"
  "strconv_Atoi ''-12'' = Some (-12)" "strconv_Atoi ''+7'' = Some 7"
  "strconv_Atoi ''9223372036854775808'' = None" "strconv_Atoi ''-9223372036854775808'' = Some (-9223372036854775808)"
  by (simp_all add: strconv_Atoi_def)

text \<open>
  A first tick on an empty table: the one container is resolved and its route is
  published.
\<close>

lemma scenario_A:
  "fst (updateRoutes oneContainerHost [0] Map.empty) = [''app.example.com'' \<mapsto> appRoute]"
  by (simp add: updateRoutes_def afterWait_def scheduled_def inspectAndRoute_def
      oneContainerHost_def appContainer_def appRoute_def atoi_8080)

lemmas routing_defs =
  updateRoutes_def afterWait_def scheduled_def inspectAndRoute_def GetRoute_def
  oneContainerHost_def emptyHost_def unreachableHost_def twoNetworkHost_def
  appContainer_def appRoute_def twoNetworks_def twoNetworksOtherOrder_def

text \<open>
  C1 fails on the code. The table holds the route of \<open>app.example.com\<close>; the next
  listing succeeds and is empty, so the candidate table is empty. No goroutine runs,
  \<open>routesChanged\<close> stays false, the candidate is not published, and the route of the
  vanished backend is still served.
\<close>

theorem C1_removed_backend_stays_routed:
  "ListContainers emptyHost = Some [] \<and>
   newRoutes (afterWait emptyHost [] [''app.example.com'' \<mapsto> appRoute] []) = Map.empty \<and>
   fst (updateRoutes emptyHost [] [''app.example.com'' \<mapsto> appRoute]) =
     [''app.example.com'' \<mapsto> appRoute] \<and>
   GetRoute (fst (updateRoutes emptyHost [] [''app.example.com'' \<mapsto> appRoute]))
     ''app.example.com'' = (appRoute, True)"
  by (simp add: routing_defs)

text \<open>
  C3. When the listing of a tick fails, \<open>updateRoutes\<close> returns the table it was given:
  every name has the route it had, or none as before; and no name is handed to the
  certificate manager.
\<close>

theorem C3_failed_listing_keeps_table:
  "ListContainers pc = None \<Longrightarrow> updateRoutes pc sched routes = (routes, [])"
  by (simp add: updateRoutes_def)

text \<open>C3 at a concrete input: a populated table and a host that cannot be reached.\<close>

theorem C3_failed_listing_keeps_table_witness:
  "ListContainers unreachableHost = None \<and>
   updateRoutes unreachableHost [0] [''app.example.com'' \<mapsto> appRoute] =
     ([''app.example.com'' \<mapsto> appRoute], [])"
proof -
  have l: "ListContainers unreachableHost = None"
    by (simp add: unreachableHost_def)
  from l C3_failed_listing_keeps_table [OF l] show ?thesis
    by simp
qed

lemma ipAddressOf_none:
  "\<forall>(n, ip) \<in> set nets. ip = [] \<Longrightarrow> ipAddressOf nets = []"
  by (induction nets rule: ipAddressOf.induct) auto

lemma ipAddressOf_first:
  "(n, ip) \<in> set nets \<Longrightarrow> ip \<noteq> [] \<Longrightarrow>
   \<exists>i < length nets. ipAddressOf nets = snd (nets ! i) \<and> snd (nets ! i) \<noteq> [] \<and>
     (\<forall>j < i. snd (nets ! j) = [])"
proof (induction nets rule: ipAddressOf.induct)
  case 1
  then show ?case by simp
next
  case (2 name a rest)
  show ?case
  proof (cases "a = []")
    case False
    then have "ipAddressOf ((name, a) # rest) = snd (((name, a) # rest) ! 0) \<and>
        snd (((name, a) # rest) ! 0) \<noteq> [] \<and> (\<forall>j < 0. snd (((name, a) # rest) ! j) = [])"
      by simp
    then show ?thesis by blast
  next
    case True
    with 2 have "(n, ip) \<in> set rest" by auto
    with 2 True obtain i where i: "i < length rest" "ipAddressOf rest = snd (rest ! i)"
      "snd (rest ! i) \<noteq> []" "\<forall>j < i. snd (rest ! j) = []"
      by auto
    have "\<forall>j < Suc i. snd (((name, a) # rest) ! j) = []"
    proof (intro allI impI)
      fix j assume "j < Suc i"
      then show "snd (((name, a) # rest) ! j) = []"
        using True i(4) by (cases j) auto
    qed
    with i True have "Suc i < length ((name, a) # rest) \<and>
        ipAddressOf ((name, a) # rest) = snd (((name, a) # rest) ! Suc i) \<and>
        snd (((name, a) # rest) ! Suc i) \<noteq> [] \<and>
        (\<forall>j < Suc i. snd (((name, a) # rest) ! j) = [])"
      by simp
    then show ?thesis by blast
  qed
qed

lemma ipAddressOf_member:
  assumes "(n, ip) \<in> set nets" "ip \<noteq> []"
  shows "ipAddressOf nets \<noteq> [] \<and> (\<exists>n'. (n', ipAddressOf nets) \<in> set nets)"
proof -
  from ipAddressOf_first [OF assms] obtain i where
    i: "i < length nets" "ipAddressOf nets = snd (nets ! i)" "snd (nets ! i) \<noteq> []"
    by blast
  from i(1) have "nets ! i \<in> set nets" by simp
  then have "(fst (nets ! i), ipAddressOf nets) \<in> set nets"
    by (simp add: i(2))
  with i show ?thesis by metis
qed

lemma ipAddressOf_reordered:
  assumes "(n1, ip1) \<in> set nets" "(n2, ip2) \<in> set nets" "ip1 \<noteq> []" "ip2 \<noteq> []" "ip1 \<noteq> ip2"
  shows "\<exists>nets'. mset nets' = mset nets \<and> ipAddressOf nets' \<noteq> ipAddressOf nets"
proof -
  let ?A = "(n1, ip1) # remove1 (n1, ip1) nets"
  let ?B = "(n2, ip2) # remove1 (n2, ip2) nets"
  have A: "mset ?A = mset nets" "ipAddressOf ?A = ip1"
    using assms(1,3) by simp_all
  have B: "mset ?B = mset nets" "ipAddressOf ?B = ip2"
    using assms(2,4) by simp_all
  show ?thesis
  proof (cases "ipAddressOf nets = ip1")
    case True
    with B assms(5) have "mset ?B = mset nets \<and> ipAddressOf ?B \<noteq> ipAddressOf nets" by simp
    then show ?thesis by blast
  next
    case False
    with A have "mset ?A = mset nets \<and> ipAddressOf ?A \<noteq> ipAddressOf nets" by simp
    then show ?thesis by blast
  qed
qed




section \<open>Properties of the DNS-01 provider\<close>

lemma TrimSuffix_same_iff:
  "sfx \<noteq> [] \<Longrightarrow> strings_TrimSuffix s sfx = s \<longleftrightarrow> \<not> suffix sfx s"
proof -
  assume ne: "sfx \<noteq> []"
  have "take (length s - length sfx) s \<noteq> s" if "suffix sfx s"
  proof -
    from that have "length sfx \<le> length s" by (rule suffix_length_le)
    with ne have "length s - length sfx < length s" by (cases sfx) auto
    then have "length (take (length s - length sfx) s) < length s" by simp
    then show ?thesis by auto
  qed
  then show ?thesis by (auto simp: strings_TrimSuffix_def)
qed

lemma suffix_root_dot: "suffix (''.'' @ Z @ ''.'') (F @ ''.'') \<longleftrightarrow> suffix (''.'' @ Z) F"
proof -
  have "suffix ((''.'' @ Z) @ ''.'') (F @ ''.'') \<longleftrightarrow> suffix (''.'' @ Z) F"
    by (rule same_suffix_suffix)
  then show ?thesis by simp
qed

lemma strip_root_dot:
  assumes "suffix (''.'' @ Z) F"
  shows "take (length (F @ ''.'') - length (''.'' @ Z @ ''.'')) (F @ ''.'') = stripZone Z F"
proof -
  from assms have "length (''.'' @ Z) \<le> length F" by (rule suffix_length_le)
  then show ?thesis by (simp add: stripZone_def)
qed

lemma Present_underivable:
  assumes "\<not> suffix (''.'' @ baseZone p @ ''.'') (fst (GetRecord env domain keyAuth))"
  shows "Present p env domain token keyAuth =
           (Some (CouldNotDerive (fst (GetRecord env domain keyAuth)) (baseZone p)), [])"
proof -
  have "strings_TrimSuffix (fst (GetRecord env domain keyAuth)) (''.'' @ baseZone p @ ''.'') =
      fst (GetRecord env domain keyAuth)"
    using assms by (simp add: TrimSuffix_same_iff)
  then show ?thesis by (simp add: Present_def)
qed

lemma CleanUp_underivable:
  assumes "\<not> suffix (''.'' @ baseZone p @ ''.'') (fst (GetRecord env domain keyAuth))"
  shows "CleanUp p env domain token keyAuth =
           (Some (CleanupCouldNotDerive (fst (GetRecord env domain keyAuth)) (baseZone p)), [])"
proof -
  have "strings_TrimSuffix (fst (GetRecord env domain keyAuth)) (''.'' @ baseZone p @ ''.'') =
      fst (GetRecord env domain keyAuth)"
    using assms by (simp add: TrimSuffix_same_iff)
  then show ?thesis by (simp add: CleanUp_def)
qed

lemma Present_derivable:
  assumes "suffix (''.'' @ baseZone p @ ''.'') (fst (GetRecord env domain keyAuth))"
  shows "fst (Present p env domain token keyAuth) \<noteq>
           Some (CouldNotDerive (fst (GetRecord env domain keyAuth)) (baseZone p)) \<and>
         map req_url (snd (Present p env domain token keyAuth)) =
           (if NewRequestOK env ''POST''
                 (gandiAPI @ ''/v5/livedns/domains/'' @ baseZone p @ ''/records/'' @
                  take (length (fst (GetRecord env domain keyAuth)) - length (''.'' @ baseZone p @ ''.''))
                    (fst (GetRecord env domain keyAuth)))
            then [gandiAPI @ ''/v5/livedns/domains/'' @ baseZone p @ ''/records/'' @
                  take (length (fst (GetRecord env domain keyAuth)) - length (''.'' @ baseZone p @ ''.''))
                    (fst (GetRecord env domain keyAuth))]
            else [])"
proof -
  let ?fqdn = "fst (GetRecord env domain keyAuth)"
  let ?sfx = "''.'' @ baseZone p @ ''.''"
  have ne: "strings_TrimSuffix ?fqdn ?sfx \<noteq> ?fqdn"
    using assms by (simp add: TrimSuffix_same_iff)
  have tr: "strings_TrimSuffix ?fqdn ?sfx = take (length ?fqdn - length ?sfx) ?fqdn"
    using assms by (simp add: strings_TrimSuffix_def)
  show ?thesis
    using ne unfolding Present_def Let_def tr
    by (simp split: option.splits)
qed

lemma CleanUp_derivable:
  assumes "suffix (''.'' @ baseZone p @ ''.'') (fst (GetRecord env domain keyAuth))"
  shows "fst (CleanUp p env domain token keyAuth) \<noteq>
           Some (CleanupCouldNotDerive (fst (GetRecord env domain keyAuth)) (baseZone p)) \<and>
         map req_url (snd (CleanUp p env domain token keyAuth)) =
           (if NewRequestOK env ''DELETE''
                 (gandiAPI @ ''/v5/livedns/domains/'' @ baseZone p @ ''/records/'' @
                  take (length (fst (GetRecord env domain keyAuth)) - length (''.'' @ baseZone p @ ''.''))
                    (fst (GetRecord env domain keyAuth)) @ ''/TXT'')
            then [gandiAPI @ ''/v5/livedns/domains/'' @ baseZone p @ ''/records/'' @
                  take (length (fst (GetRecord env domain keyAuth)) - length (''.'' @ baseZone p @ ''.''))
                    (fst (GetRecord env domain keyAuth)) @ ''/TXT'']
            else [])"
proof -
  let ?fqdn = "fst (GetRecord env domain keyAuth)"
  let ?sfx = "''.'' @ baseZone p @ ''.''"
  have ne: "strings_TrimSuffix ?fqdn ?sfx \<noteq> ?fqdn"
    using assms by (simp add: TrimSuffix_same_iff)
  have tr: "strings_TrimSuffix ?fqdn ?sfx = take (length ?fqdn - length ?sfx) ?fqdn"
    using assms by (simp add: strings_TrimSuffix_def)
  show ?thesis
    using ne unfolding CleanUp_def Let_def tr
    by (simp split: option.splits)
qed

lemma TrimSuffix_zone:
  assumes "suffix (''.'' @ Z) F"
  shows "strings_TrimSuffix (F @ ''.'') (''.'' @ Z @ ''.'') = stripZone Z F"
    and "stripZone Z F \<noteq> F @ ''.''"
proof -
  from assms have "suffix (''.'' @ Z @ ''.'') (F @ ''.'')"
    by (simp only: suffix_root_dot)
  then show "strings_TrimSuffix (F @ ''.'') (''.'' @ Z @ ''.'') = stripZone Z F"
    using strip_root_dot [OF assms] by (simp add: strings_TrimSuffix_def)
  have "length (stripZone Z F) \<le> length F"
    by (simp add: stripZone_def)
  then show "stripZone Z F \<noteq> F @ ''.''"
    by auto
qed

text \<open>
  C8. Let the challenge fqdn be \<open>F\<close>, handed to the provider in absolute form (\<open>F\<close>
  followed by the root dot), and let \<open>Z\<close> be the base zone. When \<open>F\<close> ends with \<open>.Z\<close>,
  the record name derived is \<open>F\<close> with \<open>.Z\<close> stripped: \<open>Present\<close> builds its POST
  request, and \<open>CleanUp\<close> its DELETE request, for the record of that name in the zone,
  sends it if \<open>http.NewRequest\<close> accepts it, and returns what the API answers. When
  \<open>F\<close> does not end with \<open>.Z\<close>, both return the could-not-derive error and send no
  request.
\<close>

theorem C8_record_name_derivation:
  assumes "fst (GetRecord env domain keyAuth) = F @ ''.''"
  shows "(suffix (''.'' @ baseZone p) F \<longrightarrow>
            Present p env domain token keyAuth =
              (if \<not> NewRequestOK env ''POST''
                     (gandiAPI @ ''/v5/livedns/domains/'' @ baseZone p @ ''/records/'' @
                      stripZone (baseZone p) F)
               then (Some CreateRequestFailed, [])
               else (case Do env
                       \<lparr>req_method = ''POST'',
                        req_url = gandiAPI @ ''/v5/livedns/domains/'' @ baseZone p @ ''/records/'' @
                          stripZone (baseZone p) F,
                        req_authorization = ''Bearer '' @ apiKey p,
                        req_body = Some \<lparr>rrset_type = ''TXT'',
                          rrset_values = [snd (GetRecord env domain keyAuth)], rrset_ttl = 300\<rparr>\<rparr> of
                       None \<Rightarrow> Some SendRequestFailed
                     | Some status \<Rightarrow> if status \<noteq> 201 then Some (ApiError status) else None,
                     [\<lparr>req_method = ''POST'',
                       req_url = gandiAPI @ ''/v5/livedns/domains/'' @ baseZone p @ ''/records/'' @
                         stripZone (baseZone p) F,
                       req_authorization = ''Bearer '' @ apiKey p,
                       req_body = Some \<lparr>rrset_type = ''TXT'',
                         rrset_values = [snd (GetRecord env domain keyAuth)], rrset_ttl = 300\<rparr>\<rparr>])) \<and>
            CleanUp p env domain token keyAuth =
              (if \<not> NewRequestOK env ''DELETE''
                     (gandiAPI @ ''/v5/livedns/domains/'' @ baseZone p @ ''/records/'' @
                      stripZone (baseZone p) F @ ''/TXT'')
               then (Some CreateRequestFailed, [])
               else (case Do env
                       \<lparr>req_method = ''DELETE'',
                        req_url = gandiAPI @ ''/v5/livedns/domains/'' @ baseZone p @ ''/records/'' @
                          stripZone (baseZone p) F @ ''/TXT'',
                        req_authorization = ''Bearer '' @ apiKey p,
                        req_body = None\<rparr> of
                       None \<Rightarrow> Some SendRequestFailed
                     | Some status \<Rightarrow>
                         if status \<noteq> 204 \<and> status \<noteq> 404 then Some (ApiError status) else None,
                     [\<lparr>req_method = ''DELETE'',
                       req_url = gandiAPI @ ''/v5/livedns/domains/'' @ baseZone p @ ''/records/'' @
                         stripZone (baseZone p) F @ ''/TXT'',
                       req_authorization = ''Bearer '' @ apiKey p,
                       req_body = None\<rparr>]))) \<and>
         (\<not> suffix (''.'' @ baseZone p) F \<longrightarrow>
            Present p env domain token keyAuth = (Some (CouldNotDerive (F @ ''.'') (baseZone p)), []) \<and>
            CleanUp p env domain token keyAuth = (Some (CleanupCouldNotDerive (F @ ''.'') (baseZone p)), []))"
proof (intro conjI impI)
  assume s: "suffix (''.'' @ baseZone p) F"
  note tr = TrimSuffix_zone [OF s]
  show "Present p env domain token keyAuth =
              (if \<not> NewRequestOK env ''POST''
                     (gandiAPI @ ''/v5/livedns/domains/'' @ baseZone p @ ''/records/'' @
                      stripZone (baseZone p) F)
               then (Some CreateRequestFailed, [])
               else (case Do env
                       \<lparr>req_method = ''POST'',
                        req_url = gandiAPI @ ''/v5/livedns/domains/'' @ baseZone p @ ''/records/'' @
                          stripZone (baseZone p) F,
                        req_authorization = ''Bearer '' @ apiKey p,
                        req_body = Some \<lparr>rrset_type = ''TXT'',
                          rrset_values = [snd (GetRecord env domain keyAuth)], rrset_ttl = 300\<rparr>\<rparr> of
                       None \<Rightarrow> Some SendRequestFailed
                     | Some status \<Rightarrow> if status \<noteq> 201 then Some (ApiError status) else None,
                     [\<lparr>req_method = ''POST'',
                       req_url = gandiAPI @ ''/v5/livedns/domains/'' @ baseZone p @ ''/records/'' @
                         stripZone (baseZone p) F,
                       req_authorization = ''Bearer '' @ apiKey p,
                       req_body = Some \<lparr>rrset_type = ''TXT'',
                         rrset_values = [snd (GetRecord env domain keyAuth)], rrset_ttl = 300\<rparr>\<rparr>]))"
    unfolding Present_def Let_def assms tr(1)
    using tr(2) by (simp split: option.splits)
  show "CleanUp p env domain token keyAuth =
              (if \<not> NewRequestOK env ''DELETE''
                     (gandiAPI @ ''/v5/livedns/domains/'' @ baseZone p @ ''/records/'' @
                      stripZone (baseZone p) F @ ''/TXT'')
               then (Some CreateRequestFailed, [])
               else (case Do env
                       \<lparr>req_method = ''DELETE'',
                        req_url = gandiAPI @ ''/v5/livedns/domains/'' @ baseZone p @ ''/records/'' @
                          stripZone (baseZone p) F @ ''/TXT'',
                        req_authorization = ''Bearer '' @ apiKey p,
                        req_body = None\<rparr> of
                       None \<Rightarrow> Some SendRequestFailed
                     | Some status \<Rightarrow>
                         if status \<noteq> 204 \<and> status \<noteq> 404 then Some (ApiError status) else None,
                     [\<lparr>req_method = ''DELETE'',
                       req_url = gandiAPI @ ''/v5/livedns/domains/'' @ baseZone p @ ''/records/'' @
                         stripZone (baseZone p) F @ ''/TXT'',
                       req_authorization = ''Bearer '' @ apiKey p,
                       req_body = None\<rparr>]))"
    unfolding CleanUp_def Let_def assms tr(1)
    using tr(2) by (simp split: option.splits)
next
  assume s: "\<not> suffix (''.'' @ baseZone p) F"
  then have s': "\<not> suffix (''.'' @ baseZone p @ ''.'') (fst (GetRecord env domain keyAuth))"
    by (simp only: assms suffix_root_dot not_False_eq_True)
  show "Present p env domain token keyAuth = (Some (CouldNotDerive (F @ ''.'') (baseZone p)), [])"
    using Present_underivable [OF s', of token] by (simp add: assms)
  show "CleanUp p env domain token keyAuth = (Some (CleanupCouldNotDerive (F @ ''.'') (baseZone p)), [])"
    using CleanUp_underivable [OF s', of token] by (simp add: assms)
qed

text \<open>
  C8 at concrete inputs: the zone \<open>example.com\<close>, a challenge for \<open>app.example.com\<close>
  published and cleaned up under the name \<open>_acme-challenge.app\<close>, and a challenge for a
  name of another zone.
\<close>

theorem C8_record_name_derivation_witness:
  "fst (GetRecord exampleGandi ''app.example.com'' ''k'') = ''_acme-challenge.app.example.com'' @ ''.'' \<and>
   suffix (''.'' @ baseZone exampleProvider) ''_acme-challenge.app.example.com'' \<and>
   stripZone (baseZone exampleProvider) ''_acme-challenge.app.example.com'' = ''_acme-challenge.app'' \<and>
   Present exampleProvider exampleGandi ''app.example.com'' ''t'' ''k'' =
     (None, [\<lparr>req_method = ''POST'',
              req_url = ''https://api.gandi.net/v5/livedns/domains/example.com/records/_acme-challenge.app'',
              req_authorization = ''Bearer secret'',
              req_body = Some \<lparr>rrset_type = ''TXT'', rrset_values = [''digest-of-k''], rrset_ttl = 300\<rparr>\<rparr>]) \<and>
   CleanUp exampleProvider exampleGandi ''app.example.com'' ''t'' ''k'' =
     (None, [\<lparr>req_method = ''DELETE'',
              req_url = ''https://api.gandi.net/v5/livedns/domains/example.com/records/_acme-challenge.app/TXT'',
              req_authorization = ''Bearer secret'',
              req_body = None\<rparr>]) \<and>
   fst (GetRecord exampleGandi ''app.other.org'' ''k'') = ''_acme-challenge.app.other.org'' @ ''.'' \<and>
   \<not> suffix (''.'' @ baseZone exampleProvider) ''_acme-challenge.app.other.org'' \<and>
   Present exampleProvider exampleGandi ''app.other.org'' ''t'' ''k'' =
     (Some (CouldNotDerive ''_acme-challenge.app.other.org.'' ''example.com''), []) \<and>
   CleanUp exampleProvider exampleGandi ''app.other.org'' ''t'' ''k'' =
     (Some (CleanupCouldNotDerive ''_acme-challenge.app.other.org.'' ''example.com''), [])"
proof -
  have g1: "fst (GetRecord exampleGandi ''app.example.com'' ''k'') = ''_acme-challenge.app.example.com'' @ ''.''"
    by (simp add: exampleGandi_def)
  have g2: "fst (GetRecord exampleGandi ''app.other.org'' ''k'') = ''_acme-challenge.app.other.org'' @ ''.''"
    by (simp add: exampleGandi_def)
  have s1: "suffix (''.'' @ baseZone exampleProvider) ''_acme-challenge.app.example.com''"
    by (simp add: exampleProvider_def suffix_def)
  have s2: "\<not> suffix (''.'' @ baseZone exampleProvider) ''_acme-challenge.app.other.org''"
    by (simp add: exampleProvider_def suffix_to_prefix)
  have z: "stripZone (baseZone exampleProvider) ''_acme-challenge.app.example.com'' = ''_acme-challenge.app''"
    by (simp add: stripZone_def exampleProvider_def)
  have v: "snd (GetRecord exampleGandi ''app.example.com'' ''k'') = ''digest-of-k''"
    "NewRequestOK exampleGandi = (\<lambda>method url. True)"
    "Do exampleGandi = (\<lambda>req. if req_method req = ''POST'' then Some 201 else Some 204)"
    by (simp_all add: exampleGandi_def)
  have q: "baseZone exampleProvider = ''example.com''" "apiKey exampleProvider = ''secret''"
    by (simp_all add: exampleProvider_def)
  from C8_record_name_derivation [OF g1, where p = exampleProvider and token = "''t''"] s1
  have d: "Present exampleProvider exampleGandi ''app.example.com'' ''t'' ''k'' =
     (None, [\<lparr>req_method = ''POST'',
              req_url = ''https://api.gandi.net/v5/livedns/domains/example.com/records/_acme-challenge.app'',
              req_authorization = ''Bearer secret'',
              req_body = Some \<lparr>rrset_type = ''TXT'', rrset_values = [''digest-of-k''], rrset_ttl = 300\<rparr>\<rparr>])"
    "CleanUp exampleProvider exampleGandi ''app.example.com'' ''t'' ''k'' =
     (None, [\<lparr>req_method = ''DELETE'',
              req_url = ''https://api.gandi.net/v5/livedns/domains/example.com/records/_acme-challenge.app/TXT'',
              req_authorization = ''Bearer secret'',
              req_body = None\<rparr>])"
    by (simp_all add: v q gandiAPI_def stripZone_def)
  from C8_record_name_derivation [OF g2, where p = exampleProvider and token = "''t''"] s2
  have e: "Present exampleProvider exampleGandi ''app.other.org'' ''t'' ''k'' =
     (Some (CouldNotDerive ''_acme-challenge.app.other.org.'' ''example.com''), [])"
    "CleanUp exampleProvider exampleGandi ''app.other.org'' ''t'' ''k'' =
     (Some (CleanupCouldNotDerive ''_acme-challenge.app.other.org.'' ''example.com''), [])"
    by (simp_all add: q)
  from g1 s1 z d g2 s2 e show ?thesis by simp
qed

section \<open>Properties of concurrent invocations\<close>

text \<open>
  The three steps of one invocation, taken with nothing in between, are
  \<open>CheckAndManageCert\<close>.
\<close>

lemma alone:
  "snd (stepInvocation cr now fqdn
      (fst (stepInvocation cr now fqdn (fst (stepInvocation cr now fqdn AtCheck m))
              (snd (stepInvocation cr now fqdn AtCheck m))))
      (snd (stepInvocation cr now fqdn (fst (stepInvocation cr now fqdn AtCheck m))
              (snd (stepInvocation cr now fqdn AtCheck m))))) =
   CheckAndManageCert cr now fqdn m"
proof -
  obtain r m1 where n: "needsObtain cr now fqdn m = (r, m1)"
    by (cases "needsObtain cr now fqdn m")
  show ?thesis
  proof (cases "r = Some True")
    case False
    with n show ?thesis
      by (cases r) (auto simp: CheckAndManageCert_def)
  next
    case True
    show ?thesis
    proof (cases "legoClient m1")
      case None
      with n True show ?thesis
        by (simp add: CheckAndManageCert_def obtainOrRenewCert_def)
    next
      case (Some client)
      with n True show ?thesis
        by (cases "client fqdn") (simp_all add: CheckAndManageCert_def obtainOrRenewCert_def)
    qed
  qed
qed

lemma run_alone:
  "run cr now fqdn [0, 0, 0] ([AtCheck], m) = ([Finished], CheckAndManageCert cr now fqdn m)"
proof -
  obtain r m1 where n: "needsObtain cr now fqdn m = (r, m1)"
    by (cases "needsObtain cr now fqdn m")
  show ?thesis
  proof (cases "r = Some True")
    case False
    with n show ?thesis
      by (cases r) (auto simp: CheckAndManageCert_def)
  next
    case True
    show ?thesis
    proof (cases "legoClient m1")
      case None
      with n True show ?thesis
        by (simp add: CheckAndManageCert_def obtainOrRenewCert_def)
    next
      case (Some client)
      with n True show ?thesis
        by (cases "client fqdn") (simp_all add: CheckAndManageCert_def obtainOrRenewCert_def)
    qed
  qed
qed

lemma run_append:
  "run cr now fqdn (xs @ ys) c = run cr now fqdn ys (run cr now fqdn xs c)"
proof (induction xs arbitrary: c)
  case Nil
  show ?case by simp
next
  case (Cons i xs)
  obtain ps m where c: "c = (ps, m)" by (cases c)
  show ?case unfolding c by (simp add: Cons.IH)
qed

declare run.simps [simp del]

lemma needsObtain_fst:
  "fst (needsObtain cr now fqdn m) =
     (case os_Stat (fs m) (filepath_Join certificatesPath (fqdn @ ''.crt'')) of
        Some ErrNotExist \<Rightarrow> Some True
      | Some ErrOther \<Rightarrow> None
      | None \<Rightarrow>
          (case persistedRecord cr (fs m) fqdn of
             None \<Rightarrow> Some False
           | Some (c, t) \<Rightarrow> Some (time_Until now t < renewBefore m)))"
proof (cases "os_Stat (fs m) (filepath_Join certificatesPath (fqdn @ ''.crt''))")
  case None
  show ?thesis
  proof (cases "persistedRecord cr (fs m) fqdn")
    case pn: None
    from needsObtain_corrupt [OF None pn] None pn show ?thesis by simp
  next
    case (Some p)
    obtain c t where p: "p = (c, t)" by (cases p)
    from needsObtain_loadable [of cr m fqdn c t now] Some p None show ?thesis by simp
  qed
next
  case (Some e)
  then show ?thesis
    by (cases e) (simp_all add: needsObtain_def Let_def)
qed

lemma needsObtain_keeps:
  "legoClient (snd (needsObtain cr now fqdn m)) = legoClient m \<and>
   renewBefore (snd (needsObtain cr now fqdn m)) = renewBefore m"
proof -
  let ?m1 = "emit (EvStat (filepath_Join certificatesPath (fqdn @ ''.crt''))) m"
  obtain r m2 where l: "loadCertFromFile cr fqdn ?m1 = (r, m2)"
    by (cases "loadCertFromFile cr fqdn ?m1")
  from load_legoClient [of cr fqdn ?m1] load_renewBefore [of cr fqdn ?m1] l
  have "legoClient m2 = legoClient m" "renewBefore m2 = renewBefore m" by simp_all
  with l show ?thesis
    by (cases "os_Stat (fs m) (filepath_Join certificatesPath (fqdn @ ''.crt''))"; cases r)
       (simp_all add: needsObtain_def Let_def split: os_error.splits)
qed

lemma inFlight_update_other:
  "i < length ps \<Longrightarrow> ps ! i \<noteq> InFlight \<Longrightarrow> p \<noteq> InFlight \<Longrightarrow>
   inFlight (ps[i := p]) = inFlight ps"
proof (induction ps arbitrary: i)
  case Nil
  then show ?case by simp
next
  case (Cons q ps)
  then show ?case by (cases i) (auto simp: inFlight_def)
qed

lemma inFlight_update_InFlight:
  "i < length ps \<Longrightarrow> ps ! i \<noteq> InFlight \<Longrightarrow>
   inFlight (ps[i := InFlight]) = Suc (inFlight ps)"
proof (induction ps arbitrary: i)
  case Nil
  then show ?case by simp
next
  case (Cons q ps)
  then show ?case by (cases i) (auto simp: inFlight_def)
qed

lemma inFlight_replicate [simp]:
  "inFlight (replicate N InFlight) = N" "inFlight (replicate N AtCheck) = 0"
  by (simp_all add: inFlight_def)

text \<open>
  While no invocation has taken its third step, the certificate directory is as it was
  at the start, so every check comes to the same decision.
\<close>

lemma unfinished_run:
  assumes due: "fst (needsObtain cr now fqdn m) = Some True"
    and client: "legoClient m = Some client"
  shows "(\<forall>i \<in> set sched. i < N) \<Longrightarrow> (\<forall>i < N. count_list sched i \<le> 2) \<Longrightarrow>
    length (fst (run cr now fqdn sched (replicate N AtCheck, m))) = N \<and>
    (\<forall>i < N. fst (run cr now fqdn sched (replicate N AtCheck, m)) ! i =
        progressAfter (count_list sched i)) \<and>
    fs (snd (run cr now fqdn sched (replicate N AtCheck, m))) = fs m \<and>
    renewBefore (snd (run cr now fqdn sched (replicate N AtCheck, m))) = renewBefore m \<and>
    legoClient (snd (run cr now fqdn sched (replicate N AtCheck, m))) = legoClient m \<and>
    obtainCalls (trace (snd (run cr now fqdn sched (replicate N AtCheck, m)))) =
      obtainCalls (trace m) @
      replicate (inFlight (fst (run cr now fqdn sched (replicate N AtCheck, m)))) fqdn \<and>
    acmeRequests (trace (snd (run cr now fqdn sched (replicate N AtCheck, m)))) =
      acmeRequests (trace m) @
      replicate (inFlight (fst (run cr now fqdn sched (replicate N AtCheck, m)))) fqdn"
proof (induction sched rule: rev_induct)
  case Nil
  show ?case by (simp add: run.simps)
next
  case (snoc i sched)
  obtain ps m' where r: "run cr now fqdn sched (replicate N AtCheck, m) = (ps, m')"
    by (cases "run cr now fqdn sched (replicate N AtCheck, m)")
  from snoc.prems have i: "i < N" and b: "\<forall>j \<in> set sched. j < N" by simp_all
  have c: "\<forall>j < N. count_list sched j \<le> 2"
  proof (intro allI impI)
    fix j assume "j < N"
    with snoc.prems(2) have "count_list (sched @ [i]) j \<le> 2" by blast
    then show "count_list sched j \<le> 2" by (simp split: if_splits)
  qed
  from snoc.prems(2) i have "count_list (sched @ [i]) i \<le> 2" by blast
  then have ci: "count_list sched i \<le> 1" by simp
  from snoc.IH [OF b c] r
  have len: "length ps = N"
    and at: "\<forall>j < N. ps ! j = progressAfter (count_list sched j)"
    and f: "fs m' = fs m" and rb: "renewBefore m' = renewBefore m"
    and lc: "legoClient m' = legoClient m"
    and oc: "obtainCalls (trace m') = obtainCalls (trace m) @ replicate (inFlight ps) fqdn"
    and ar: "acmeRequests (trace m') = acmeRequests (trace m) @ replicate (inFlight ps) fqdn"
    by simp_all
  have "fst (needsObtain cr now fqdn m') = fst (needsObtain cr now fqdn m)"
    unfolding needsObtain_fst f rb by (rule refl)
  with due have due': "fst (needsObtain cr now fqdn m') = Some True"
    by simp
  have step: "run cr now fqdn (sched @ [i]) (replicate N AtCheck, m) =
      (ps[i := fst (stepInvocation cr now fqdn (ps ! i) m')],
       snd (stepInvocation cr now fqdn (ps ! i) m'))"
    using i len by (simp add: run_append r run.simps)
  from ci have "count_list sched i = 0 \<or> count_list sched i = 1" by auto
  then show ?case
  proof
    assume z: "count_list sched i = 0"
    with at i have p: "ps ! i = AtCheck" by simp
    obtain m1 where n: "needsObtain cr now fqdn m' = (Some True, m1)"
      using due' by (cases "needsObtain cr now fqdn m'") simp
    have m1: "m1 = snd (needsObtain cr now fqdn m')" using n by simp
    have st: "stepInvocation cr now fqdn (ps ! i) m' = (AtObtain, m1)"
      using p n by simp
    have k: "fs m1 = fs m" "renewBefore m1 = renewBefore m" "legoClient m1 = legoClient m"
      "obtainCalls (trace m1) = obtainCalls (trace m')"
      "acmeRequests (trace m1) = acmeRequests (trace m')"
      using f rb lc by (simp_all add: m1 needsObtain_keeps needsObtain_calls needsObtain_requests)
    have fl: "inFlight (ps[i := AtObtain]) = inFlight ps"
      using i len p by (simp add: inFlight_update_other)
    have nth: "\<forall>j < N. (ps[i := AtObtain]) ! j = progressAfter (count_list (sched @ [i]) j)"
      using at len z by (auto simp: nth_list_update)
    show ?thesis
      unfolding step st using len k fl nth oc ar by simp
  next
    assume o: "count_list sched i = 1"
    with at i have p: "ps ! i = AtObtain" by simp
    have st: "stepInvocation cr now fqdn (ps ! i) m' =
        (InFlight, emit (EvAcmeRequest fqdn) (emit (EvObtainCalled fqdn) m'))"
      using p lc client by simp
    have fl: "inFlight (ps[i := InFlight]) = Suc (inFlight ps)"
      using i len p by (simp add: inFlight_update_InFlight)
    have nth: "\<forall>j < N. (ps[i := InFlight]) ! j = progressAfter (count_list (sched @ [i]) j)"
      using at len o by (auto simp: nth_list_update)
    show ?thesis
      unfolding step st using len f rb lc fl nth oc ar
      by (simp add: replicate_append_same)
  qed
qed

lemma due_of_claim:
  assumes "os_Stat (fs m) (filepath_Join certificatesPath (fqdn @ ''.crt'')) = Some ErrNotExist \<or>
       (\<exists>c t. persistedRecord cr (fs m) fqdn = Some (c, t) \<and> time_Until now t < renewBefore m)"
  shows "fst (needsObtain cr now fqdn m) = Some True"
  using assms
proof
  assume "os_Stat (fs m) (filepath_Join certificatesPath (fqdn @ ''.crt'')) = Some ErrNotExist"
  then show ?thesis by (rule needsObtain_absent)
next
  assume "\<exists>c t. persistedRecord cr (fs m) fqdn = Some (c, t) \<and> time_Until now t < renewBefore m"
  then obtain c t where "persistedRecord cr (fs m) fqdn = Some (c, t)"
    "time_Until now t < renewBefore m" by blast
  then show ?thesis by (simp add: needsObtain_loadable)
qed




end
